theory Spec2Isabelle
  imports Main "HOL-Library.Sublist"
begin

section \<open>Python values, strings and errors\<close>

text \<open>
  The source is \<^verbatim>\<open>src/api/boiiiwd_api_improved.py\<close>. A Python \<^verbatim>\<open>str\<close> is a sequence of
  code points; this development covers the strings whose code points are below 256 and
  writes them as \<^typ>\<open>string\<close>, one \<^typ>\<open>char\<close> per code point (so \<^term>\<open>CHR 0xB2\<close> is
  the one-character string SUPERSCRIPT TWO, not a UTF-8 byte). The character classes
  below are Python's on that range.
\<close>

datatype py_error =
  ValueError | OverflowError | ZeroDivisionError | AttributeError | IndexError
  | TimeoutExpired | OSError | RuntimeError

definition cp :: "char \<Rightarrow> nat" where
  "cp c = of_char c"

text \<open>\<^verbatim>\<open>str.isspace\<close> per character, which is what \<^verbatim>\<open>str.strip()\<close> removes.\<close>

definition py_isspace :: "char \<Rightarrow> bool" where
  "py_isspace c = (cp c \<in> {9, 10, 11, 12, 13, 28, 29, 30, 31, 32, 133, 160})"

text \<open>A decimal digit (Unicode category Nd): what the regular expression \<^verbatim>\<open>\d\<close>,
  \<^verbatim>\<open>int()\<close> and \<^verbatim>\<open>float()\<close> accept as a digit. Below 256 these are 0 to 9.\<close>

definition is_decimal_digit :: "char \<Rightarrow> bool" where
  "is_decimal_digit c = (48 \<le> cp c \<and> cp c \<le> 57)"

text \<open>\<^verbatim>\<open>str.isdigit\<close> per character: Numeric_Type Digit or Decimal. Below 256 these are
  0 to 9 and the superscripts two, three and one (U+00B2, U+00B3, U+00B9).\<close>

definition py_isdigit_char :: "char \<Rightarrow> bool" where
  "py_isdigit_char c = (is_decimal_digit c \<or> cp c \<in> {178, 179, 185})"

definition py_isdigit :: "string \<Rightarrow> bool" where
  "py_isdigit s = (s \<noteq> [] \<and> list_all py_isdigit_char s)"

definition py_strip :: "string \<Rightarrow> string" where
  "py_strip s = rev (dropWhile py_isspace (rev (dropWhile py_isspace s)))"

section \<open>extract_workshop_id\<close>

text \<open>\<^verbatim>\<open>re.search(r"id=(\d+)", value)\<close>: the leftmost position where \<^verbatim>\<open>id=\<close> is followed by
  at least one decimal digit; group 1 is the longest run of digits there.\<close>

definition match_id_at :: "string \<Rightarrow> string option" where
  "match_id_at s =
     (if take 3 s = ''id='' then
        (let ds = takeWhile is_decimal_digit (drop 3 s)
         in if ds = [] then None else Some ds)
      else None)"

fun search_id :: "string \<Rightarrow> string option" where
  "search_id [] = None"
| "search_id (c # cs) =
     (case match_id_at (c # cs) of
        Some ds \<Rightarrow> Some ds
      | None \<Rightarrow> search_id cs)"

definition extract_workshop_id :: "string \<Rightarrow> string option" where
  "extract_workshop_id v =
     (let v' = py_strip v
      in if py_isdigit v' then Some v' else search_id v')"

section \<open>Double-precision floats\<close>

text \<open>
  A Python \<^verbatim>\<open>float\<close> is an IEEE 754 double. \<^term>\<open>Finite m e\<close> stands for the number
  \<open>m * 2^e\<close>, \<^term>\<open>Infinity neg\<close> for the infinity of that sign. Results are rounded to
  the nearest double, ties to even, with 53 significant bits and the smallest exponent
  \<open>-1074\<close>; a rounded magnitude of \<open>2^1024\<close> or more is an overflow.
\<close>

datatype pyfloat = Finite int int | Infinity bool | NaN

function bit_length :: "int \<Rightarrow> int" where
  "bit_length n = (if n \<le> 0 then 0 else 1 + bit_length (n div 2))"
  by pat_completeness auto
termination
  by (relation "measure nat") auto

declare bit_length.simps [simp del]

definition round_half_even :: "int \<Rightarrow> int \<Rightarrow> int" where
  \<comment> \<open>the integer nearest to \<open>p / q\<close> for \<open>0 \<le> p\<close> and \<open>0 < q\<close>, ties to the even one\<close>
  "round_half_even p q =
     (let f = p div q; r = p mod q
      in if 2 * r < q then f
         else if q < 2 * r then f + 1
         else if even f then f else f + 1)"

definition ilog2_ratio :: "int \<Rightarrow> int \<Rightarrow> int" where
  \<comment> \<open>\<open>\<lfloor>log\<^sub>2 (n / d)\<rfloor>\<close> for \<open>0 < n\<close> and \<open>0 < d\<close>\<close>
  "ilog2_ratio n d =
     (let e0 = bit_length n - bit_length d
      in if (if 0 \<le> e0 then d * 2 ^ nat e0 \<le> n else d \<le> n * 2 ^ nat (- e0))
         then e0 else e0 - 1)"

definition round_to_double :: "int \<Rightarrow> int \<Rightarrow> pyfloat" where
  \<comment> \<open>the double nearest to \<open>n / d\<close>, for \<open>0 < d\<close>\<close>
  "round_to_double n d =
     (if n = 0 then Finite 0 0
      else
        (let a = \<bar>n\<bar>;
             e = ilog2_ratio a d;
             u = max (e - 52) (- 1074);
             m = (if 0 \<le> u then round_half_even a (d * 2 ^ nat u)
                  else round_half_even (a * 2 ^ nat (- u)) d)
         in if 971 < u \<or> (u = 971 \<and> 2 ^ 53 \<le> m) then Infinity (n < 0)
            else Finite (sgn n * m) u))"

text \<open>\<^verbatim>\<open>a / b\<close> on two Python ints: the correctly rounded quotient; it raises when
  the divisor is zero or the quotient is too large for a float.\<close>

definition py_truediv :: "int \<Rightarrow> int \<Rightarrow> py_error + pyfloat" where
  "py_truediv a b =
     (if b = 0 then Inl ZeroDivisionError
      else
        (case (if b < 0 then round_to_double (- a) (- b) else round_to_double a b) of
           Infinity _ \<Rightarrow> Inl OverflowError
         | f \<Rightarrow> Inr f))"

text \<open>\<^verbatim>\<open>x * k\<close> for a float \<open>x\<close> and a small int \<open>k\<close> (exactly a double): the exact product,
  rounded; float multiplication overflows to an infinity without raising.\<close>

fun float_mul_int :: "pyfloat \<Rightarrow> int \<Rightarrow> pyfloat" where
  "float_mul_int (Finite m e) k =
     (if 0 \<le> e then round_to_double (m * k * 2 ^ nat e) 1
      else round_to_double (m * k) (2 ^ nat (- e)))"
| "float_mul_int (Infinity neg) k =
     (if k = 0 then NaN else Infinity (neg \<noteq> (k < 0)))"
| "float_mul_int NaN k = NaN"

text \<open>\<^verbatim>\<open>int(x)\<close> on a float truncates toward zero; it raises OverflowError on an
  infinity and ValueError on a NaN.\<close>

fun int_of_float :: "pyfloat \<Rightarrow> py_error + int" where
  "int_of_float (Finite m e) =
     Inr (if 0 \<le> e then m * 2 ^ nat e else sgn m * (\<bar>m\<bar> div 2 ^ nat (- e)))"
| "int_of_float (Infinity _) = Inl OverflowError"
| "int_of_float NaN = Inl ValueError"

section \<open>to_int\<close>

text \<open>The values \<^verbatim>\<open>to_int\<close> can receive. \<^term>\<open>PObj\<close> is any object that is neither
  None, a bool, an int, a float nor a str.\<close>

datatype pyval = PNone | PBool bool | PInt int | PFloat pyfloat | PStr string | PObj

definition digit_val :: "char \<Rightarrow> int" where
  "digit_val c = int (cp c) - 48"

definition digits_val :: "string \<Rightarrow> int" where
  "digits_val ds = foldl (\<lambda>acc c. 10 * acc + digit_val c) 0 ds"

text \<open>\<^verbatim>\<open>int(s)\<close> for the strings \<^verbatim>\<open>to_int\<close> passes to it, which have no blanks and no
  underscores: an optional minus sign and decimal digits, anything else is a ValueError.\<close>

definition py_int_str :: "string \<Rightarrow> py_error + int" where
  "py_int_str s =
     (case s of
        [] \<Rightarrow> Inl ValueError
      | c # cs \<Rightarrow>
          if c = CHR ''-'' \<or> c = CHR ''+'' then
            (if cs \<noteq> [] \<and> list_all is_decimal_digit cs
             then Inr (if c = CHR ''-'' then - digits_val cs else digits_val cs)
             else Inl ValueError)
          else if list_all is_decimal_digit s then Inr (digits_val s)
          else Inl ValueError)"

text \<open>\<^verbatim>\<open>float(s)\<close>. The grammar is Python's: an optional sign, then \<^verbatim>\<open>inf\<close>,
  \<^verbatim>\<open>infinity\<close> or \<^verbatim>\<open>nan\<close> in any case, or a decimal number (digits with single
  underscores between them, an optional point, an optional exponent); surrounding
  blanks are dropped. The value is the double nearest to the number written.\<close>

definition ascii_lower :: "char \<Rightarrow> char" where
  "ascii_lower c = (if 65 \<le> cp c \<and> cp c \<le> 90 then char_of (cp c + 32) else c)"

fun digit_run :: "string \<Rightarrow> string \<times> string" where
  \<comment> \<open>after a digit: further digits, each optionally preceded by one underscore\<close>
  "digit_run (c # d # cs) =
     (if is_decimal_digit c then (let (ds, r) = digit_run (d # cs) in (c # ds, r))
      else if c = CHR ''_'' \<and> is_decimal_digit d then
        (let (ds, r) = digit_run cs in (d # ds, r))
      else ([], c # d # cs))"
| "digit_run [c] = (if is_decimal_digit c then ([c], []) else ([], [c]))"
| "digit_run [] = ([], [])"

definition digitpart :: "string \<Rightarrow> (string \<times> string) option" where
  "digitpart s =
     (case s of
        [] \<Rightarrow> None
      | c # cs \<Rightarrow>
          if is_decimal_digit c then (let (ds, r) = digit_run cs in Some (c # ds, r))
          else None)"

definition float_number :: "string \<Rightarrow> (string \<times> string \<times> string) option" where
  \<comment> \<open>integer digits, fraction digits, and what follows the number\<close>
  "float_number s =
     (case digitpart s of
        Some (ip, r) \<Rightarrow>
          (case r of
             c # r' \<Rightarrow>
               if c = CHR ''.'' then
                 (case digitpart r' of
                    Some (fp, r'') \<Rightarrow> Some (ip, fp, r'')
                  | None \<Rightarrow> Some (ip, [], r'))
               else Some (ip, [], r)
           | [] \<Rightarrow> Some (ip, [], []))
      | None \<Rightarrow>
          (case s of
             c # r' \<Rightarrow>
               if c = CHR ''.'' then
                 (case digitpart r' of
                    Some (fp, r'') \<Rightarrow> Some ([], fp, r'')
                  | None \<Rightarrow> None)
               else None
           | [] \<Rightarrow> None))"

definition float_exponent :: "string \<Rightarrow> int option" where
  \<comment> \<open>what follows the number: nothing, or \<open>e\<close>, an optional sign and digits\<close>
  "float_exponent r =
     (case r of
        [] \<Rightarrow> Some 0
      | c # r' \<Rightarrow>
          if c = CHR ''e'' \<or> c = CHR ''E'' then
            (case r' of
               [] \<Rightarrow> None
             | g # r'' \<Rightarrow>
                 (let neg = (g = CHR ''-'');
                      body = (if g = CHR ''-'' \<or> g = CHR ''+'' then r'' else r')
                  in case digitpart body of
                       Some (ds, []) \<Rightarrow> Some (if neg then - digits_val ds else digits_val ds)
                     | _ \<Rightarrow> None))
          else None)"

definition py_float_str :: "string \<Rightarrow> py_error + pyfloat" where
  "py_float_str s0 =
     (let s = py_strip s0;
          neg = (s \<noteq> [] \<and> hd s = CHR ''-'');
          body = (if s \<noteq> [] \<and> (hd s = CHR ''-'' \<or> hd s = CHR ''+'') then tl s else s);
          low = map ascii_lower body
      in if low = ''inf'' \<or> low = ''infinity'' then Inr (Infinity neg)
         else if low = ''nan'' then Inr NaN
         else
           (case float_number body of
              None \<Rightarrow> Inl ValueError
            | Some (ip, fp, r) \<Rightarrow>
                (case float_exponent r of
                   None \<Rightarrow> Inl ValueError
                 | Some x \<Rightarrow>
                     (let mant = digits_val (ip @ fp);
                          k = x - int (length fp);
                          sm = (if neg then - mant else mant)
                      in Inr (if 0 \<le> k then round_to_double (sm * 10 ^ nat k) 1
                              else round_to_double sm (10 ^ nat (- k)))))))"

text \<open>
  \<^verbatim>\<open>
  def to_int(value):
      if isinstance(value, bool): return int(value)
      if isinstance(value, (int, float)): return int(value)
      if isinstance(value, str):
          cleaned = value.strip()
          if not cleaned: return 0
          if cleaned.isdigit() or (cleaned.startswith("-") and cleaned[1:].isdigit()):
              return int(cleaned)
          try: return int(float(cleaned))
          except ValueError: return 0
      return 0
  \<close>
  Only the ValueError of the last conversion is caught; an exception is \<^term>\<open>Inl\<close>.
\<close>

fun to_int :: "pyval \<Rightarrow> py_error + int" where
  "to_int (PBool b) = Inr (if b then 1 else 0)"
| "to_int (PInt i) = Inr i"
| "to_int (PFloat x) = int_of_float x"
| "to_int (PStr v) =
     (let cleaned = py_strip v
      in if cleaned = [] then Inr 0
         else if py_isdigit cleaned \<or> (take 1 cleaned = ''-'' \<and> py_isdigit (drop 1 cleaned))
           then py_int_str cleaned
         else
           (case py_float_str cleaned of
              Inl ValueError \<Rightarrow> Inr 0
            | Inl e \<Rightarrow> Inl e
            | Inr x \<Rightarrow>
                (case int_of_float x of
                   Inl ValueError \<Rightarrow> Inr 0
                 | r \<Rightarrow> r)))"
| "to_int PNone = Inr 0"
| "to_int PObj = Inr 0"

section \<open>The shared status record and the download manager\<close>

text \<open>
  \<^verbatim>\<open>app_state\<close>, the module-level dictionary every caller reads. The keys
  \<^verbatim>\<open>library_items\<close>, \<^verbatim>\<open>last_update\<close> (a wall-clock time) and \<^verbatim>\<open>progress_samples\<close>
  (written once, never read) play no part in the download logic and are left out.
\<close>

record app_state =
  download_progress :: int
  download_status :: string
  current_download :: "string option"
  current_title :: string
  queue :: "string list"
  downloading :: bool
  download_speed :: string
  file_size :: string
  status_message :: string

definition initial_app_state :: app_state where
  "initial_app_state =
     \<lparr>download_progress = 0, download_status = ''idle'', current_download = None,
      current_title = [], queue = [], downloading = False, download_speed = ''0 B/s'',
      file_size = ''0 B'', status_message = []\<rparr>"

text \<open>
  \<^verbatim>\<open>DownloadManager\<close>. A thread attribute is \<^term>\<open>None\<close> before the first start and
  \<^term>\<open>Some alive\<close> afterwards, \<open>alive\<close> being what \<^verbatim>\<open>is_alive()\<close> answers. Starting a
  thread yields the job the thread will run; the job carries the identifier as the
  caller passed it, whatever its type.
\<close>

record manager =
  thread :: "bool option"
  queue_thread :: "bool option"
  stop_event :: bool
  current_mode :: "string option"

datatype 'a job = RunDownload 'a | ProcessQueue

definition is_busy :: "manager \<Rightarrow> bool" where
  "is_busy m = (thread m = Some True \<or> queue_thread m = Some True)"

definition start_download ::
  "manager \<Rightarrow> app_state \<Rightarrow> 'a \<Rightarrow> (bool \<times> string option) \<times> manager \<times> app_state \<times> 'a job option"
where
  "start_download m st workshop_id =
     (if is_busy m then ((False, Some ''Another download is already running''), m, st, None)
      else ((True, None),
            m\<lparr>stop_event := False, thread := Some True, current_mode := Some ''single''\<rparr>,
            st, Some (RunDownload workshop_id)))"

definition start_queue ::
  "manager \<Rightarrow> app_state \<Rightarrow> (bool \<times> string option) \<times> manager \<times> app_state \<times> 'a job option"
where
  "start_queue m st =
     (if is_busy m then ((False, Some ''A download is already running''), m, st, None)
      else if queue st = [] then ((False, Some ''The queue is empty''), m, st, None)
      else ((True, None),
            m\<lparr>stop_event := False, queue_thread := Some True, current_mode := Some ''queue''\<rparr>,
            st, Some ProcessQueue))"

text \<open>
  \<^verbatim>\<open>
  def enqueue(self, items):
      added = []
      for item in items:
          if item not in app_state["queue"]:
              app_state["queue"].append(item)
              added.append(item)
      return added
  \<close>
\<close>

fun enqueue_loop :: "string list \<Rightarrow> string list \<Rightarrow> app_state \<Rightarrow> string list \<times> app_state" where
  "enqueue_loop [] added st = (added, st)"
| "enqueue_loop (item # items) added st =
     (if item \<notin> set (queue st)
      then enqueue_loop items (added @ [item]) (st\<lparr>queue := queue st @ [item]\<rparr>)
      else enqueue_loop items added st)"

definition enqueue :: "app_state \<Rightarrow> string list \<Rightarrow> string list \<times> app_state" where
  "enqueue st items = enqueue_loop items [] st"

text \<open>The routes \<^verbatim>\<open>DELETE /api/queue\<close> and \<^verbatim>\<open>DELETE /api/queue/<item_id>\<close>, which write the
  queue from the request threads, with no lock and whether or not a worker is busy.
  \<^verbatim>\<open>list.remove\<close> removes the first occurrence.\<close>

definition clear_queue :: "app_state \<Rightarrow> app_state" where
  "clear_queue st = st\<lparr>queue := []\<rparr>"

definition remove_from_queue :: "app_state \<Rightarrow> string \<Rightarrow> bool \<times> app_state" where
  "remove_from_queue st item_id0 =
     (let item_id = (case extract_workshop_id item_id0 of Some i \<Rightarrow> i | None \<Rightarrow> item_id0)
      in if item_id \<in> set (queue st) then (True, st\<lparr>queue := remove1 item_id (queue st)\<rparr>)
         else (False, st))"

text \<open>A value taken from JSON with \<^verbatim>\<open>.get(key)\<close>: absent (None), a string, or anything
  else, given by its \<^verbatim>\<open>str()\<close> text and its truth value.\<close>

datatype jval = JAbsent | JStr string | JNonStr string bool

definition truthy :: "jval \<Rightarrow> bool" where
  "truthy v = (case v of JAbsent \<Rightarrow> False | JStr t \<Rightarrow> t \<noteq> [] | JNonStr _ b \<Rightarrow> b)"

text \<open>
  The route \<^verbatim>\<open>POST /api/download\<close>:
  \<^verbatim>\<open>
  workshop_id = payload.get("workshop_id", "")
  if not workshop_id:
      return jsonify({"success": False, "message": "Workshop ID is required"}), 400
  started, error = download_manager.start_download(workshop_id)
  if not started:
      return jsonify({"success": False, "message": error}), 409
  return jsonify({"success": True, "message": "Download started", "workshop_id": workshop_id})
  \<close>
  Only a false value (missing, empty) is refused before \<^verbatim>\<open>start_download\<close> is called.
\<close>

record response =
  http_status :: nat
  body_success :: bool
  body_message :: string

definition download_workshop_item ::
  "manager \<Rightarrow> app_state \<Rightarrow> jval \<Rightarrow> response \<times> manager \<times> app_state \<times> jval job option"
where
  "download_workshop_item m st workshop_id =
     (if \<not> truthy workshop_id then
        (\<lparr>http_status = 400, body_success = False, body_message = ''Workshop ID is required''\<rparr>, m, st, None)
      else
        (case start_download m st workshop_id of
           ((started, err), m', st', j) \<Rightarrow>
             if \<not> started then
               (\<lparr>http_status = 409, body_success = False,
                 body_message = (case err of Some e \<Rightarrow> e | None \<Rightarrow> [])\<rparr>, m', st', j)
             else
               (\<lparr>http_status = 200, body_success = True, body_message = ''Download started''\<rparr>, m', st', j)))"

section \<open>The world a download runs in\<close>

text \<open>
  Everything \<^verbatim>\<open>_perform_download\<close> reads from outside (settings, the file system, the
  Steam API, the SteamCMD process, the clock, the other threads) is an input of the
  model. A \<^term>\<open>tick\<close> is one round of the polling loop, entered because
  \<^verbatim>\<open>process.poll()\<close> was None.
\<close>

record tick =
  stop_seen :: bool
    \<comment> \<open>\<^verbatim>\<open>stop_event.is_set()\<close> at the head of the round\<close>
  exits_in_time :: bool
    \<comment> \<open>after \<^verbatim>\<open>terminate()\<close>, the process exits within the 5 seconds of \<^verbatim>\<open>wait(timeout=5)\<close>\<close>
  probe_raises :: "py_error option"
    \<comment> \<open>measuring the two directories raises (a file vanishes between \<^verbatim>\<open>exists()\<close> and
        \<^verbatim>\<open>stat()\<close>, say)\<close>
  download_dir_size :: "int option"
    \<comment> \<open>\<^verbatim>\<open>get_folder_size(workshop_download_path)\<close>, None when the path does not exist\<close>
  content_dir_size :: "int option"
  speed_text :: string
    \<comment> \<open>the formatted transfer rate of the round (float formatting, not modelled)\<close>
  alive_at_clamp :: bool
    \<comment> \<open>\<^verbatim>\<open>process.poll() is None\<close> when it is asked again in the round; once it is
        False the process has exited and the loop test that follows ends the loop\<close>

record manifest =
  json_FolderName :: jval
  json_PublisherID :: jval
  json_Type :: jval

record wait_obs =
  json_there :: bool
  stop_noticed :: bool
  content_nonempty :: bool

text \<open>The calls \<^verbatim>\<open>_perform_download\<close> makes before its \<^verbatim>\<open>try\<close> block that can raise: an
  exception there is caught by nothing and ends the thread.\<close>

datatype early_call =
  ReadDestinationSetting | ReadSteamcmdSetting
  | ExpandDestination | ExpandSteamcmd
  | ProbeDestination | ProbeSteamcmdFile | ProbeSteamcmdDir | ProbeSteamcmdExe
  | StartProcess

record world =
  raises_at :: "early_call \<Rightarrow> py_error option"
    \<comment> \<open>the exception the call raises, if it does: \<^verbatim>\<open>get_setting\<close> (an unreadable
        \<^verbatim>\<open>config.ini\<close>), \<^verbatim>\<open>Path(...).expanduser()\<close> (RuntimeError on a \<^verbatim>\<open>~user\<close> that cannot be
        resolved), \<^verbatim>\<open>exists()\<close> and \<^verbatim>\<open>is_file()\<close>, and for \<^term>\<open>StartProcess\<close> the creation
        and measuring of the download directory and \<^verbatim>\<open>subprocess.Popen\<close>\<close>
  destination_setting :: string
  steamcmd_setting :: string
  destination_exists :: bool
  steamcmd_is_file :: bool
  steamcmd_name :: string
  steamcmd_dir_exists :: bool
  steamcmd_dir_text :: string
  steamcmd_exe_exists :: bool
  details :: "string + (string \<times> pyval)"
    \<comment> \<open>\<^verbatim>\<open>request_workshop_details\<close>: the text of the exception it raised, or the
        title (empty when missing) and the \<^verbatim>\<open>file_size\<close> entry of the answer\<close>
  scraped_size :: "int option"
    \<comment> \<open>\<^verbatim>\<open>get_workshop_file_size\<close>\<close>
  readable_size :: "int \<Rightarrow> string"
    \<comment> \<open>\<^verbatim>\<open>convert_bytes_to_readable\<close> (float formatting, not modelled)\<close>
  baseline_download_bytes :: int
  baseline_content_bytes :: int
  ticks :: "tick list"
  return_code :: int
  manifest_probe :: "nat \<Rightarrow> wait_obs"
    \<comment> \<open>what the \<open>k\<close>-th test of the wait loop for \<^verbatim>\<open>workshop.json\<close> sees\<close>
  manifest_raises :: "py_error option"
    \<comment> \<open>waiting for, searching, reading or taking the entries of the manifest raises\<close>
  manifest_exists :: bool
    \<comment> \<open>\<^verbatim>\<open>workshop_json.exists()\<close> after the wait loop\<close>
  manifest_found_by_search :: bool
    \<comment> \<open>the recursive search of the content and download trees finds one\<close>
  metadata :: "manifest option"
    \<comment> \<open>\<^verbatim>\<open>read_workshop_json\<close>; None also stands for an empty object\<close>
  existing_usermaps :: "string list"
    \<comment> \<open>the paths that exist under \<^verbatim>\<open>destination/usermaps\<close>, relative to it\<close>
  existing_mods :: "string list"
  mkdir_raises :: bool
  copy_raises :: bool
    \<comment> \<open>\<^verbatim>\<open>shutil.copytree\<close> or the clean-up after it raises\<close>
  refresh_raises :: bool
  exception_text :: "py_error \<Rightarrow> string"
    \<comment> \<open>\<^verbatim>\<open>str(exc)\<close>\<close>
  outside_writes :: "string list \<Rightarrow> string list"
    \<comment> \<open>queue mode: what the routes running in other threads (\<^term>\<open>enqueue\<close>,
        \<^term>\<open>clear_queue\<close>, \<^term>\<open>remove_from_queue\<close>) have made of the queue by the time the
        download returns; the identity when none of them wrote it\<close>
  stop_seen_after :: bool
    \<comment> \<open>\<^verbatim>\<open>stop_event.is_set()\<close> when the queue loop tests it after this download\<close>

record DownloadResult =
  success :: bool
  message :: string

text \<open>The program points that write \<^verbatim>\<open>app_state\<close>. A trace lists, in order, each
  write with the state it leaves. \<^term>\<open>Outside\<close> is a write of the queue by another
  thread.\<close>

datatype point =
  Preparing | ConfigError | InvalidId | MetadataError | Downloading | Stopped
  | Polled bool | ExitError | Finalizing | ManifestError | Installing | Completed
  | Excepted | Outside | Popped | Released

type_synonym trace = "(point \<times> app_state) list"

definition last_state :: "app_state \<Rightarrow> trace \<Rightarrow> app_state" where
  "last_state st tr = (if tr = [] then st else snd (last tr))"

section \<open>Progress estimation\<close>

text \<open>
  \<^verbatim>\<open>
  size_samples.append(total_bytes)
  if len(size_samples) > 60: size_samples.pop(0)
  average_bytes = sum(size_samples[-5:]) // min(len(size_samples), 5)
  progress = 0
  if file_size_bytes:
      progress = min(int(average_bytes / file_size_bytes * 100), 100)
  current_progress = int(app_state.get("download_progress", 0))
  if progress < current_progress: progress = current_progress
  if progress >= 100 and self.process.poll() is None: progress = 99
  \<close>
\<close>

definition push_sample :: "int list \<Rightarrow> int \<Rightarrow> int list" where
  "push_sample size_samples total_bytes =
     (let xs = size_samples @ [total_bytes]
      in if 60 < length xs then tl xs else xs)"

definition last5 :: "int list \<Rightarrow> int list" where
  "last5 xs = drop (length xs - 5) xs"

definition average_bytes :: "int list \<Rightarrow> int" where
  "average_bytes size_samples = sum_list (last5 size_samples) div int (min (length size_samples) 5)"

definition raw_progress :: "int \<Rightarrow> int \<Rightarrow> py_error + int" where
  "raw_progress average file_size_bytes =
     (if file_size_bytes = 0 then Inr 0
      else
        (case py_truediv average file_size_bytes of
           Inl e \<Rightarrow> Inl e
         | Inr q \<Rightarrow>
             (case int_of_float (float_mul_int q 100) of
                Inl e \<Rightarrow> Inl e
              | Inr p \<Rightarrow> Inr (min p 100))))"

definition clamp_progress :: "int \<Rightarrow> int \<Rightarrow> bool \<Rightarrow> int" where
  "clamp_progress progress current_progress alive =
     (let p = (if progress < current_progress then current_progress else progress)
      in if 100 \<le> p \<and> alive then 99 else p)"

definition total_bytes_of :: "int \<Rightarrow> int \<Rightarrow> tick \<Rightarrow> int" where
  "total_bytes_of baseline_download baseline_content t =
     (let download_bytes =
            (case download_dir_size t of None \<Rightarrow> 0 | Some b \<Rightarrow> max (b - baseline_download) 0);
          content_bytes =
            (case content_dir_size t of None \<Rightarrow> 0 | Some b \<Rightarrow> max (b - baseline_content) 0)
      in download_bytes + content_bytes)"

section \<open>The polling loop\<close>

datatype loop_end = ProcessExited | LoopReturn DownloadResult | LoopRaise py_error

text \<open>
  \<^verbatim>\<open>while self.process.poll() is None:\<close> one equation per way the test can go: no round
  left (the process has exited), or a round. In a round a set stop event terminates the
  process and waits at most 5 seconds for it, which raises \<^verbatim>\<open>TimeoutExpired\<close> when the
  process is slower. The loop runs inside the \<^verbatim>\<open>try\<close> block: what is raised in it is
  handed to the handler.
\<close>

fun poll_loop :: "int \<Rightarrow> int \<Rightarrow> int \<Rightarrow> int list \<Rightarrow> app_state \<Rightarrow> tick list \<Rightarrow> loop_end \<times> trace" where
  "poll_loop fsb bd bc size_samples st [] = (ProcessExited, [])"
| "poll_loop fsb bd bc size_samples st (t # ts) =
     (if stop_seen t then
        (if exits_in_time t then
           (LoopReturn \<lparr>success = False, message = ''Download stopped''\<rparr>,
            [(Stopped, st\<lparr>download_status := ''stopped'',
                           status_message := ''Download cancelled by user'',
                           downloading := False, download_speed := ''0 B/s''\<rparr>)])
         else (LoopRaise TimeoutExpired, []))
      else
        (case probe_raises t of
           Some e \<Rightarrow> (LoopRaise e, [])
         | None \<Rightarrow>
             (let samples' = push_sample size_samples (total_bytes_of bd bc t)
              in case raw_progress (average_bytes samples') fsb of
                   Inl e \<Rightarrow> (LoopRaise e, [])
                 | Inr progress \<Rightarrow>
                     (let st' = st\<lparr>download_progress :=
                                      clamp_progress progress (download_progress st) (alive_at_clamp t),
                                    download_speed := speed_text t,
                                    status_message := ''Downloading from Steam Workshop...''\<rparr>
                      in if alive_at_clamp t then
                           (case poll_loop fsb bd bc samples' st' ts of
                              (e, tr) \<Rightarrow> (e, (Polled True, st') # tr))
                         else (ProcessExited, [(Polled False, st')])))))"

section \<open>Installing\<close>

definition py_or :: "jval \<Rightarrow> jval \<Rightarrow> jval" where
  "py_or a b = (if truthy a then a else b)"

definition py_str :: "jval \<Rightarrow> string" where
  "py_str v = (case v of JAbsent \<Rightarrow> ''None'' | JStr t \<Rightarrow> t | JNonStr t _ \<Rightarrow> t)"

definition py_lower_char :: "char \<Rightarrow> char" where
  "py_lower_char c =
     (if (65 \<le> cp c \<and> cp c \<le> 90) \<or> (192 \<le> cp c \<and> cp c \<le> 222 \<and> cp c \<noteq> 215)
      then char_of (cp c + 32) else c)"

text \<open>\<^verbatim>\<open>(metadata.get("Type") or "map").lower()\<close>: a true value that is not a string has
  no \<^verbatim>\<open>lower\<close>.\<close>

definition item_type_of :: "jval \<Rightarrow> py_error + string" where
  "item_type_of v =
     (case py_or v (JStr ''map'') of
        JStr t \<Rightarrow> Inr (map py_lower_char t)
      | _ \<Rightarrow> Inl AttributeError)"

function show_nat :: "nat \<Rightarrow> string" where
  "show_nat n =
     (if n < 10 then [char_of (48 + n)]
      else show_nat (n div 10) @ [char_of (48 + n mod 10)])"
  by pat_completeness auto
termination
  by (relation "measure id") auto

declare show_nat.simps [simp del]

text \<open>\<^verbatim>\<open>Path.name\<close> of \<^verbatim>\<open>destination_base / rel\<close> for a relative \<open>rel\<close>: its last
  component, where \<^verbatim>\<open>/\<close> and (on Windows, where SteamCMD runs) the backslash separate
  components and empty and \<^verbatim>\<open>.\<close> components are dropped; with no component left it is
  the name of the base. On a name that is a single component it is the identity.\<close>

fun split_path :: "string \<Rightarrow> string \<Rightarrow> string list" where
  "split_path acc [] = [acc]"
| "split_path acc (c # cs) =
     (if c = CHR ''/'' \<or> c = CHR 0x5C then acc # split_path [] cs
      else split_path (acc @ [c]) cs)"

definition path_name :: "string \<Rightarrow> string \<Rightarrow> string" where
  "path_name base rel =
     (let comps = filter (\<lambda>t. t \<noteq> [] \<and> t \<noteq> ''.'') (split_path [] rel)
      in if comps = [] then base else last comps)"

text \<open>\<^verbatim>\<open>final_folder.name != folder_name\<close>: a string never equals a value of another
  type.\<close>

definition name_differs :: "string \<Rightarrow> string \<Rightarrow> jval \<Rightarrow> bool" where
  "name_differs base rel folder_name =
     (case folder_name of JStr t \<Rightarrow> path_name base rel \<noteq> t | _ \<Rightarrow> True)"

text \<open>
  \<^verbatim>\<open>
  final_folder = destination_base / str(folder_name)
  attempts = 0
  while final_folder.exists() and attempts < 10 and final_folder.name != folder_name:
      attempts += 1
      final_folder = destination_base / f"{folder_name}_{workshop_id}_{attempts}"
  \<close>
  The folder is written relative to \<^verbatim>\<open>destination_base\<close>.
\<close>

function pick_final_folder ::
  "string list \<Rightarrow> string \<Rightarrow> jval \<Rightarrow> string \<Rightarrow> nat \<Rightarrow> string \<Rightarrow> string"
where
  "pick_final_folder existing base folder_name workshop_id attempts final_folder =
     (if final_folder \<in> set existing \<and> attempts < 10 \<and> name_differs base final_folder folder_name
      then pick_final_folder existing base folder_name workshop_id (attempts + 1)
             (py_str folder_name @ ''_'' @ workshop_id @ ''_'' @ show_nat (attempts + 1))
      else final_folder)"
  by pat_completeness auto
termination
  by (relation "measure (\<lambda>(existing, base, folder_name, workshop_id, attempts, final_folder). 10 - attempts)") auto

declare pick_final_folder.simps [simp del]

datatype phase_end = Return DownloadResult | Raise py_error

text \<open>Lines 653 to 683. The result carries the directory handed to
  \<^verbatim>\<open>shutil.copytree(source_root, final_folder / "zone", dirs_exist_ok=True)\<close>: its base
  (\<^verbatim>\<open>usermaps\<close> or \<^verbatim>\<open>mods\<close>) and the folder under it.\<close>

definition install ::
  "world \<Rightarrow> string \<Rightarrow> manifest \<Rightarrow> app_state \<Rightarrow> phase_end \<times> trace \<times> (string \<times> string) option"
where
  "install w workshop_id md st =
     (let folder_name = py_or (json_FolderName md) (py_or (json_PublisherID md) (JStr workshop_id))
      in case item_type_of (json_Type md) of
           Inl e \<Rightarrow> (Raise e, [], None)
         | Inr item_type \<Rightarrow>
             (let base = (if item_type = ''map'' then ''usermaps'' else ''mods'');
                  existing = (if item_type = ''map'' then existing_usermaps w else existing_mods w)
              in if mkdir_raises w then (Raise OSError, [], None)
                 else
                   (let final_folder =
                          pick_final_folder existing base folder_name workshop_id 0 (py_str folder_name);
                        s1 = st\<lparr>download_status := ''installing'',
                                 status_message := ''Installing into game folder...''\<rparr>
                    in if copy_raises w then (Raise OSError, [(Installing, s1)], Some (base, final_folder))
                       else
                         (let s2 = s1\<lparr>download_status := ''completed'', download_progress := 100,
                                       download_speed := ''0 B/s'',
                                       status_message := ''Download completed successfully'',
                                       downloading := False\<rparr>
                          in if refresh_raises w then
                               (Raise OSError, [(Installing, s1), (Completed, s2)], Some (base, final_folder))
                             else
                               (Return \<lparr>success = True, message = ''Download completed''\<rparr>,
                                [(Installing, s1), (Completed, s2)], Some (base, final_folder))))))"

section \<open>After the process has exited\<close>

text \<open>
  The wait for \<^verbatim>\<open>workshop.json\<close> (lines 620 to 630) writes no state; it only takes
  time. The function returns the seconds waited.
\<close>

function wait_for_manifest :: "(nat \<Rightarrow> wait_obs) \<Rightarrow> nat \<Rightarrow> nat \<Rightarrow> nat" where
  "wait_for_manifest probe k waited =
     (if \<not> json_there (probe k) \<and> waited < 120 \<and> \<not> stop_noticed (probe k)
      then wait_for_manifest probe (Suc k) (waited + (if content_nonempty (probe k) then 2 else 1))
      else waited)"
  by pat_completeness auto
termination
  by (relation "measure (\<lambda>(probe, k, waited). 120 - waited)") auto

declare wait_for_manifest.simps [simp del]

definition after_exit ::
  "world \<Rightarrow> string \<Rightarrow> app_state \<Rightarrow> phase_end \<times> trace \<times> (string \<times> string) option"
where
  "after_exit w workshop_id st =
     (if return_code w \<noteq> 0 then
        (Return \<lparr>success = False, message = ''SteamCMD failed to download the item''\<rparr>,
         [(ExitError, st\<lparr>download_status := ''error'',
                          status_message := ''SteamCMD failed to download the item'',
                          downloading := False\<rparr>)], None)
      else
        (let s1 = st\<lparr>status_message := ''Finalizing download...''\<rparr>
         in case manifest_raises w of
              Some e \<Rightarrow> (Raise e, [(Finalizing, s1)], None)
            | None \<Rightarrow>
                if \<not> manifest_exists w \<and> \<not> manifest_found_by_search w then
                  (Return \<lparr>success = False, message = ''workshop.json was not produced by SteamCMD''\<rparr>,
                   [(Finalizing, s1),
                    (ManifestError, s1\<lparr>download_status := ''error'',
                                       status_message := ''workshop.json was not produced by SteamCMD'',
                                       downloading := False\<rparr>)], None)
                else
                  (case metadata w of
                     None \<Rightarrow>
                       (Return \<lparr>success = False, message = ''Unable to read workshop.json''\<rparr>,
                        [(Finalizing, s1),
                         (ManifestError, s1\<lparr>download_status := ''error'',
                                            status_message := ''Unable to read workshop.json'',
                                            downloading := False\<rparr>)], None)
                   | Some md \<Rightarrow>
                       (case install w workshop_id md s1 of
                          (e, tr, target) \<Rightarrow> (e, (Finalizing, s1) # tr, target)))))"

section \<open>_perform_download\<close>

record run =
  outcome :: "py_error + DownloadResult"
    \<comment> \<open>\<^term>\<open>Inl\<close>: an exception left \<^verbatim>\<open>_perform_download\<close> uncaught\<close>
  trace_of :: trace
  process_started :: bool
  copy_target :: "(string \<times> string) option"

text \<open>The \<^verbatim>\<open>try\<close> block (lines 561 to 689): the polling loop, then the rest; any
  exception becomes the phase \<^verbatim>\<open>error\<close> with its text.\<close>

definition try_block :: "world \<Rightarrow> string \<Rightarrow> int \<Rightarrow> app_state \<Rightarrow> run" where
  "try_block w workshop_id file_size_bytes st =
     (let (e, tr, target) =
            (case poll_loop file_size_bytes (baseline_download_bytes w) (baseline_content_bytes w)
                    [] st (ticks w) of
               (LoopReturn r, tr) \<Rightarrow> (Return r, tr, None)
             | (LoopRaise x, tr) \<Rightarrow> (Raise x, tr, None)
             | (ProcessExited, tr) \<Rightarrow>
                 (case after_exit w workshop_id (last_state st tr) of
                    (e, tr2, target) \<Rightarrow> (e, tr @ tr2, target)))
      in case e of
           Return r \<Rightarrow>
             \<lparr>outcome = Inr r, trace_of = tr, process_started = True, copy_target = target\<rparr>
         | Raise x \<Rightarrow>
             \<lparr>outcome = Inr \<lparr>success = False, message = exception_text w x\<rparr>,
              trace_of = tr @ [(Excepted, (last_state st tr)\<lparr>download_status := ''error'',
                                             status_message := exception_text w x,
                                             downloading := False\<rparr>)],
              process_started = True, copy_target = target\<rparr>)"

definition early :: "point \<Rightarrow> app_state \<Rightarrow> string \<Rightarrow> run" where
  "early p st msg =
     \<lparr>outcome = Inr \<lparr>success = False, message = msg\<rparr>, trace_of = [(p, st)],
      process_started = False, copy_target = None\<rparr>"

definition config_error :: "app_state \<Rightarrow> string \<Rightarrow> string \<Rightarrow> run" where
  "config_error st status_text result_text =
     early ConfigError
       (st\<lparr>download_status := ''error'', status_message := status_text, downloading := False\<rparr>)
       result_text"

text \<open>Lines 504 to 555: the metadata lookup, the expected size, the phase
  \<^verbatim>\<open>downloading\<close>, the start of SteamCMD. \<^verbatim>\<open>to_int\<close>, \<^verbatim>\<open>ensure_directory\<close>,
  \<^verbatim>\<open>get_folder_size\<close> and \<^verbatim>\<open>Popen\<close> are called outside the \<^verbatim>\<open>try\<close> block.\<close>

definition lookup_and_start :: "world \<Rightarrow> string \<Rightarrow> app_state \<Rightarrow> run" where
  "lookup_and_start w workshop_id st =
     (case details w of
        Inl text \<Rightarrow>
          early MetadataError
            (st\<lparr>download_status := ''error'', status_message := text, downloading := False\<rparr>) text
      | Inr (title, size_entry) \<Rightarrow>
          (case to_int size_entry of
             Inl e \<Rightarrow> \<lparr>outcome = Inl e, trace_of = [], process_started = False, copy_target = None\<rparr>
           | Inr n \<Rightarrow>
               (let item_title = (if title = [] then workshop_id else title);
                    file_size_bytes =
                      (if n = 0 then (case scraped_size w of None \<Rightarrow> 0 | Some k \<Rightarrow> k) else n);
                    s1 = st\<lparr>downloading := True, current_download := Some workshop_id,
                             current_title := item_title, download_status := ''downloading'',
                             file_size := (if file_size_bytes \<noteq> 0 then readable_size w file_size_bytes
                                           else ''Unknown''),
                             status_message := ''Downloading from Steam Workshop...''\<rparr>
                in case raises_at w StartProcess of
                     Some e \<Rightarrow>
                       \<lparr>outcome = Inl e, trace_of = [(Downloading, s1)],
                        process_started = False, copy_target = None\<rparr>
                   | None \<Rightarrow>
                       (let r = try_block w workshop_id file_size_bytes s1
                        in r\<lparr>trace_of := (Downloading, s1) # trace_of r\<rparr>))))"

text \<open>An exception that nothing catches ends \<^verbatim>\<open>_perform_download\<close> where it is
  raised.\<close>

definition dies :: "py_error \<Rightarrow> run" where
  "dies e = \<lparr>outcome = Inl e, trace_of = [], process_started = False, copy_target = None\<rparr>"

definition raising :: "world \<Rightarrow> early_call \<Rightarrow> run \<Rightarrow> run" where
  "raising w c rest = (case raises_at w c of Some e \<Rightarrow> dies e | None \<Rightarrow> rest)"

text \<open>
  Lines 460 to 502, in the order of the source: the two settings are read, tested for
  emptiness, turned into paths (\<^verbatim>\<open>Path(...).expanduser()\<close>), then the identifier is
  examined, then the paths are probed.
\<close>

definition validate :: "world \<Rightarrow> string \<Rightarrow> app_state \<Rightarrow> run" where
  "validate w workshop_id st =
     raising w ReadDestinationSetting
    (raising w ReadSteamcmdSetting
    (if py_strip (destination_setting w) = [] then
       config_error st ''Destination folder is not set'' ''Destination folder is not set''
     else if py_strip (steamcmd_setting w) = [] then
       config_error st ''SteamCMD path is not set'' ''SteamCMD path is not set''
     else
       raising w ExpandDestination
      (raising w ExpandSteamcmd
      (case (if \<not> py_isdigit workshop_id then extract_workshop_id workshop_id
             else Some workshop_id) of
         None \<Rightarrow>
           early InvalidId
             (st\<lparr>download_status := ''error'', status_message := ''Invalid Workshop ID''\<rparr>)
             ''Invalid Workshop ID''
       | Some wid \<Rightarrow>
           raising w ProbeDestination
          (if \<not> destination_exists w then
             config_error st ''Destination folder does not exist''
               ''Destination folder does not exist''
           else
             raising w ProbeSteamcmdFile
            (if steamcmd_is_file w \<and> map py_lower_char (steamcmd_name w) \<noteq> ''steamcmd.exe'' then
               config_error st (''Invalid SteamCMD executable: '' @ steamcmd_name w)
                 (''Invalid SteamCMD executable: '' @ steamcmd_name w)
             else
               raising w ProbeSteamcmdDir
              (if \<not> steamcmd_dir_exists w then
                 config_error st (''SteamCMD path does not exist: '' @ steamcmd_dir_text w)
                   (''SteamCMD path does not exist: '' @ steamcmd_dir_text w)
               else
                 raising w ProbeSteamcmdExe
                (if \<not> steamcmd_exe_exists w then
                   config_error st (''steamcmd.exe not found in '' @ steamcmd_dir_text w)
                     ''SteamCMD was not found''
                 else lookup_and_start w wid st))))))))"

definition perform_download :: "world \<Rightarrow> string \<Rightarrow> app_state \<Rightarrow> run" where
  "perform_download w workshop_id0 st =
     (let workshop_id = py_strip workshop_id0;
          s0 = st\<lparr>download_status := ''preparing'', download_progress := 0,
                   status_message := ''Preparing download...'',
                   current_download := Some workshop_id, current_title := [],
                   downloading := True, file_size := ''Unknown'', download_speed := ''0 B/s''\<rparr>;
          r = validate w workshop_id s0
      in r\<lparr>trace_of := (Preparing, s0) # trace_of r\<rparr>)"

section \<open>_run_download and _process_queue\<close>

definition release :: "app_state \<Rightarrow> app_state" where
  "release st = st\<lparr>downloading := False, current_download := None, current_title := [],
                    download_speed := ''0 B/s''\<rparr>"

record thread_run =
  died :: "py_error option"
    \<comment> \<open>the exception that ended the thread, if one did\<close>
  thread_trace :: trace
  ran :: "string list"
    \<comment> \<open>the identifiers whose download was begun, in order\<close>
  mode_after :: "string option"

text \<open>\<^verbatim>\<open>_run_download\<close>. The first statement of \<^verbatim>\<open>_perform_download\<close> is
  \<^verbatim>\<open>workshop_id.strip()\<close>, which only a string has.\<close>

definition run_download :: "world \<Rightarrow> string option \<Rightarrow> jval \<Rightarrow> app_state \<Rightarrow> thread_run" where
  "run_download w mode v st =
     (case v of
        JStr workshop_id \<Rightarrow>
          (let r = perform_download w workshop_id st
           in case outcome r of
                Inl e \<Rightarrow>
                  \<lparr>died = Some e, thread_trace = trace_of r, ran = [workshop_id], mode_after = mode\<rparr>
              | Inr _ \<Rightarrow>
                  \<lparr>died = None,
                   thread_trace = trace_of r @ [(Released, release (last_state st (trace_of r)))],
                   ran = [workshop_id], mode_after = None\<rparr>)
      | _ \<Rightarrow> \<lparr>died = Some AttributeError, thread_trace = [], ran = [], mode_after = mode\<rparr>)"

text \<open>A trace keeps the queue of a state: every write in it leaves the queue as it is
  in that state.\<close>

definition keeps_queue :: "app_state \<Rightarrow> trace \<Rightarrow> bool" where
  "keeps_queue st tr = (\<forall>(p, s) \<in> set tr. queue s = queue st)"

text \<open>
  \<^verbatim>\<open>
  while app_state["queue"] and not self.stop_event.is_set():
      next_id = app_state["queue"][0]
      result = self._perform_download(next_id)
      if not result.success and self.current_mode == "queue":
          # keep the failing item in the queue but move on
          app_state["queue"].pop(0)
          break
      app_state["queue"].pop(0)
  \<close>
  One round of the loop is \<^term>\<open>queue_round\<close>: \<open>w\<close> is the world of the download and
  \<open>mode\<close> is \<^verbatim>\<open>self.current_mode\<close> as the round reads it. The routes write the queue from
  other threads without a lock; what they have made of it when the download returns is
  \<^term>\<open>outside_writes w\<close> of the queue (the model places the outside writes of a round at
  that moment). \<^verbatim>\<open>pop(0)\<close> removes the head of the queue as it is then and raises
  IndexError on an empty one.
\<close>

datatype round_end = Died py_error | Break app_state | Continue app_state

definition queue_round ::
  "world \<Rightarrow> string option \<Rightarrow> app_state \<Rightarrow> round_end \<times> trace \<times> string list"
where
  "queue_round w mode st =
     (case queue st of
        [] \<Rightarrow> (Died IndexError, [], [])
      | next_id # _ \<Rightarrow>
          (let r = perform_download w next_id st;
               s1 = last_state st (trace_of r)
           in case outcome r of
                Inl e \<Rightarrow> (Died e, trace_of r, [next_id])
              | Inr result \<Rightarrow>
                  (let q1 = outside_writes w (queue s1);
                       tr1 = trace_of r
                             @ (if q1 = queue s1 then [] else [(Outside, s1\<lparr>queue := q1\<rparr>)])
                   in case q1 of
                        [] \<Rightarrow> (Died IndexError, tr1, [next_id])
                      | _ # rest \<Rightarrow>
                          (let s2 = s1\<lparr>queue := rest\<rparr>
                           in if \<not> success result \<and> mode = Some ''queue''
                              then (Break s2, tr1 @ [(Popped, s2)], [next_id])
                              else (Continue s2, tr1 @ [(Popped, s2)], [next_id])))))"

text \<open>
  The loop, over the worlds of its successive rounds. Other threads can refill the
  queue without end, so the loop need not end: the result is \<^term>\<open>None\<close> when the rounds
  given do not reach the end of the loop. Otherwise it is the exception that ended the
  thread (if one did), the trace and the identifiers run.
\<close>

fun process_queue_loop ::
  "world list \<Rightarrow> string option \<Rightarrow> bool \<Rightarrow> app_state \<Rightarrow> (py_error option \<times> trace \<times> string list) option"
where
  "process_queue_loop [] mode stop st =
     (if queue st = [] \<or> stop then Some (None, [], []) else None)"
| "process_queue_loop (w # ws) mode stop st =
     (if queue st = [] \<or> stop then Some (None, [], [])
      else
        (case queue_round w mode st of
           (Died e, tr, ids) \<Rightarrow> Some (Some e, tr, ids)
         | (Break s2, tr, ids) \<Rightarrow> Some (None, tr, ids)
         | (Continue s2, tr, ids) \<Rightarrow>
             (case process_queue_loop ws mode (stop_seen_after w) s2 of
                None \<Rightarrow> None
              | Some (e, tr', ids') \<Rightarrow> Some (e, tr @ tr', ids @ ids'))))"

text \<open>\<^verbatim>\<open>_process_queue\<close>: the loop, then the write that releases the status record. A
  thread that an exception ended does not reach that write.\<close>

definition process_queue ::
  "world list \<Rightarrow> string option \<Rightarrow> bool \<Rightarrow> app_state \<Rightarrow> thread_run option"
where
  "process_queue ws mode stop st =
     (case process_queue_loop ws mode stop st of
        None \<Rightarrow> None
      | Some (Some e, tr, ids) \<Rightarrow>
          Some \<lparr>died = Some e, thread_trace = tr, ran = ids, mode_after = mode\<rparr>
      | Some (None, tr, ids) \<Rightarrow>
          Some \<lparr>died = None, thread_trace = tr @ [(Released, release (last_state st tr))],
                ran = ids, mode_after = None\<rparr>)"

section \<open>A concrete world\<close>

text \<open>A world in which item 999 downloads in two rounds, SteamCMD exits with code 0 and
  the manifest declares the map \<^verbatim>\<open>cool_map\<close>; no call raises and no other thread writes
  the queue. The examples below vary it.\<close>

definition sample_tick :: "int \<Rightarrow> bool \<Rightarrow> tick" where
  "sample_tick n alive =
     \<lparr>stop_seen = False, exits_in_time = True, probe_raises = None,
      download_dir_size = Some n, content_dir_size = None, speed_text = ''1.00 KB/s'',
      alive_at_clamp = alive\<rparr>"

definition sample_world :: world where
  "sample_world =
     \<lparr>raises_at = (\<lambda>c. None),
      destination_setting = ''C:/game'', steamcmd_setting = ''C:/steamcmd'',
      destination_exists = True, steamcmd_is_file = False, steamcmd_name = ''steamcmd'',
      steamcmd_dir_exists = True, steamcmd_dir_text = ''C:/steamcmd'',
      steamcmd_exe_exists = True, details = Inr (''Cool map'', PInt 100),
      scraped_size = None, readable_size = (\<lambda>n. ''100.00 B''),
      baseline_download_bytes = 0, baseline_content_bytes = 0,
      ticks = [sample_tick 50 True, sample_tick 100 False], return_code = 0,
      manifest_probe = (\<lambda>k. \<lparr>json_there = True, stop_noticed = False, content_nonempty = True\<rparr>),
      manifest_raises = None, manifest_exists = True, manifest_found_by_search = False,
      metadata = Some \<lparr>json_FolderName = JStr ''cool_map'', json_PublisherID = JStr ''999'',
                       json_Type = JStr ''map''\<rparr>,
      existing_usermaps = [], existing_mods = [], mkdir_raises = False, copy_raises = False,
      refresh_raises = False, exception_text = (\<lambda>e. ''timed out after 5 seconds''),
      outside_writes = (\<lambda>q. q), stop_seen_after = False\<rparr>"

text \<open>The same world with SteamCMD exiting with code 1, and two states of the status
  record.\<close>

definition failing_world :: world where
  "failing_world = sample_world\<lparr>return_code := 1\<rparr>"

definition busy_with_1 :: app_state where
  "busy_with_1 = initial_app_state\<lparr>current_download := Some ''1'', downloading := True,
                                     download_status := ''downloading''\<rparr>"

definition two_pending :: app_state where
  "two_pending = initial_app_state\<lparr>queue := [''1'', ''2'']\<rparr>"

text \<open>A manager that has started nothing yet.\<close>

definition idle_manager :: manager where
  "idle_manager = \<lparr>thread = None, queue_thread = None, stop_event = False, current_mode = None\<rparr>"

text \<open>A world whose destination setting names the home of a user that does not exist:
  \<^verbatim>\<open>Path("~nosuchuser/games").expanduser()\<close> raises RuntimeError.\<close>

definition no_home :: world where
  "no_home = sample_world\<lparr>destination_setting := ''~nosuchuser/games'',
     raises_at := (\<lambda>c. if c = ExpandDestination then Some RuntimeError else None)\<rparr>"

section \<open>Properties of the trace of reported progress\<close>

text \<open>\<^term>\<open>below_100_until_exit\<close>: every write before the first round that found the
  process gone, and before the write of the phase \<^verbatim>\<open>completed\<close>, reports at most 99.
  \<^term>\<open>steady ex c\<close> is the invariant the proofs carry along a trace: \<open>c\<close> is the progress
  last written and \<open>ex\<close> tells whether such a write has been passed.
  \<^term>\<open>ends_completed\<close>: the last write is the phase \<^verbatim>\<open>completed\<close> with the progress
  100.\<close>

fun below_100_until_exit :: "trace \<Rightarrow> bool" where
  "below_100_until_exit [] = True"
| "below_100_until_exit ((p, s) # tr) =
     (p = Polled False \<or> p = Completed \<or> (download_progress s \<le> 99 \<and> below_100_until_exit tr))"

fun steady :: "bool \<Rightarrow> int \<Rightarrow> trace \<Rightarrow> bool" where
  "steady ex c [] = True"
| "steady ex c ((p, s) # tr) =
     (c \<le> download_progress s \<and> download_progress s \<le> 100
      \<and> (\<not> (ex \<or> p = Polled False \<or> p = Completed) \<longrightarrow> download_progress s \<le> 99)
      \<and> (p = Polled True \<longrightarrow> download_progress s \<le> 99)
      \<and> steady (ex \<or> p = Polled False \<or> p = Completed) (download_progress s) tr)"

definition has_exit :: "trace \<Rightarrow> bool" where
  "has_exit tr = (\<exists>(p, s) \<in> set tr. p = Polled False \<or> p = Completed)"

definition ends_completed :: "trace \<Rightarrow> bool" where
  "ends_completed tr =
     (tr \<noteq> [] \<and> fst (last tr) = Completed \<and> download_progress (snd (last tr)) = 100
      \<and> download_status (snd (last tr)) = ''completed'')"

text \<open>The world \<^term>\<open>failing_world\<close> with a single round, which sees all 100 expected
  bytes and finds the process gone.\<close>

definition full_then_failed :: world where
  "full_then_failed = failing_world\<lparr>ticks := [sample_tick 100 False]\<rparr>"

text \<open>The formula the specification gives for the percentage of a polling round,
  \<^verbatim>\<open>min(round(average of the last 5 size samples / expected total size * 100), 100)\<close>,
  written after the specification's words and not after the code: exact arithmetic,
  rounded to the nearest integer (a tie goes to the even one, as with Python's
  \<^verbatim>\<open>round\<close>), for samples that are not negative and a positive expected size. It is compared
  below with \<^term>\<open>raw_progress\<close>, which is the code's expression.\<close>

definition spec_percentage :: "int list \<Rightarrow> int \<Rightarrow> int" where
  "spec_percentage size_samples expected =
     min (round_half_even (100 * sum_list (last5 size_samples))
            (int (min (length size_samples) 5) * expected)) 100"

section \<open>Admission while busy\<close>

text \<open>
  Claim C6. Whenever a worker is already active (\<^term>\<open>is_busy\<close>), both
  \<^verbatim>\<open>start_download\<close> and \<^verbatim>\<open>start_queue\<close> return a rejection with an error message, start
  no thread (no job is handed out), and leave the manager, the pending queue and the
  whole status record as they were: the rejected request is not queued.
\<close>

theorem busy_admission_rejected:
  assumes "is_busy m"
  shows "start_download m st workshop_id =
           ((False, Some ''Another download is already running''), m, st, None)
       \<and> start_queue m st = ((False, Some ''A download is already running''), m, st, None)"
  using assms by (simp add: start_download_def start_queue_def)

theorem busy_admission_rejected_witness:
  "is_busy \<lparr>thread = Some True, queue_thread = None, stop_event = False,
            current_mode = Some ''single''\<rparr>
   \<and> start_download
        \<lparr>thread = Some True, queue_thread = None, stop_event = False,
         current_mode = Some ''single''\<rparr>
        (initial_app_state\<lparr>queue := [''7'']\<rparr>) ''5''
     = ((False, Some ''Another download is already running''),
        \<lparr>thread = Some True, queue_thread = None, stop_event = False,
         current_mode = Some ''single''\<rparr>,
        initial_app_state\<lparr>queue := [''7'']\<rparr>, None)
   \<and> start_queue
        \<lparr>thread = Some True, queue_thread = None, stop_event = False,
         current_mode = Some ''single''\<rparr>
        (initial_app_state\<lparr>queue := [''7'']\<rparr>)
     = ((False, Some ''A download is already running''),
        \<lparr>thread = Some True, queue_thread = None, stop_event = False,
         current_mode = Some ''single''\<rparr>,
        initial_app_state\<lparr>queue := [''7'']\<rparr>, None)"
proof -
  have busy: "is_busy \<lparr>thread = Some True, queue_thread = None, stop_event = False,
                       current_mode = Some ''single''\<rparr>"
    by (simp add: is_busy_def)
  show ?thesis
    using busy busy_admission_rejected [OF busy, of "initial_app_state\<lparr>queue := [''7'']\<rparr>" "''5''"]
    by simp
qed

section \<open>Identifiers and sizes at the boundary\<close>

text \<open>
  Claim C9 says that \<^verbatim>\<open>extract_workshop_id\<close> returns None or a non-empty string of
  decimal digits. The first test of the function is \<^verbatim>\<open>str.isdigit\<close>, which also holds of
  the superscript digits: the one-character string U+00B2 is returned as it is,
  although it is no decimal digit (and \<^verbatim>\<open>int()\<close> rejects it).
\<close>

theorem extract_workshop_id_superscript:
  "extract_workshop_id [CHR 0xB2] = Some [CHR 0xB2] \<and> \<not> list_all is_decimal_digit [CHR 0xB2]"
  by (simp add: extract_workshop_id_def py_strip_def py_isspace_def py_isdigit_def
      py_isdigit_char_def is_decimal_digit_def cp_def)

text \<open>
  Claim C10 says that \<^verbatim>\<open>to_int\<close> returns an integer for every value and never raises.
  On the string \<^verbatim>\<open>inf\<close> the conversion \<^verbatim>\<open>float("inf")\<close> succeeds and \<^verbatim>\<open>int\<close> of the
  infinity raises OverflowError, which the \<^verbatim>\<open>except ValueError\<close> does not catch.
\<close>

theorem to_int_inf_raises:
  "to_int (PStr ''inf'') = Inl OverflowError"
  by (simp add: py_strip_def py_isspace_def cp_def py_isdigit_def py_isdigit_char_def
      is_decimal_digit_def py_float_str_def ascii_lower_def)

section \<open>Name collisions at install\<close>

text \<open>
  Claim C1 says that an install whose declared folder name already exists gets a
  suffixed destination and never copies into an existing directory. In the loop of lines
  659 to 662 the test \<^verbatim>\<open>final_folder.name != folder_name\<close> is false at once when the
  declared name is a string, so no suffix is ever tried: with \<^verbatim>\<open>usermaps/cool_map\<close>
  present, item 999 declaring \<^verbatim>\<open>cool_map\<close> is copied into that directory
  (\<^verbatim>\<open>dirs_exist_ok=True\<close>) and the job completes.
\<close>

theorem install_into_existing_folder:
  "copy_target (perform_download (sample_world\<lparr>existing_usermaps := [''cool_map'']\<rparr>) ''999''
                  initial_app_state) = Some (''usermaps'', ''cool_map'')
   \<and> outcome (perform_download (sample_world\<lparr>existing_usermaps := [''cool_map'']\<rparr>) ''999''
                  initial_app_state) = Inr \<lparr>success = True, message = ''Download completed''\<rparr>"
  by code_simp

section \<open>Cancellation\<close>

text \<open>
  Claim C7 says that a cancellation during the downloading phase ends the job in the
  phase \<^verbatim>\<open>stopped\<close>, however long the process takes to exit. When the process is still
  running 5 seconds after \<^verbatim>\<open>terminate()\<close>, \<^verbatim>\<open>wait(timeout=5)\<close> raises, the handler of
  line 685 catches it and the job ends in the phase \<^verbatim>\<open>error\<close>.
\<close>

theorem cancel_with_slow_exit_is_error:
  "map (\<lambda>(p, s). (p, download_status s))
      (trace_of (perform_download
         (sample_world\<lparr>ticks := [sample_tick 50 True,
              (sample_tick 60 True)\<lparr>stop_seen := True, exits_in_time := False\<rparr>]\<rparr>)
         ''999'' initial_app_state))
   = [(Preparing, ''preparing''), (Downloading, ''downloading''), (Polled True, ''downloading''),
      (Excepted, ''error'')]"
  by code_simp

section \<open>The queue is not written by a download\<close>

text \<open>No write of \<^verbatim>\<open>_perform_download\<close> touches the key \<^verbatim>\<open>queue\<close>.\<close>

lemma keeps_queue_Nil: "keeps_queue st []"
  by (simp add: keeps_queue_def)

lemma keeps_queue_Cons:
  "keeps_queue st ((p, s) # tr) = (queue s = queue st \<and> keeps_queue st tr)"
  by (auto simp: keeps_queue_def)

lemma keeps_queue_append:
  "keeps_queue st (tr @ tr') = (keeps_queue st tr \<and> keeps_queue st tr')"
  by (auto simp: keeps_queue_def)

lemma keeps_queue_cong: "queue st = queue st' \<Longrightarrow> keeps_queue st tr = keeps_queue st' tr"
  by (simp add: keeps_queue_def)

lemma keeps_queue_last: "keeps_queue st tr \<Longrightarrow> queue (last_state st tr) = queue st"
  by (cases tr rule: rev_cases) (auto simp: keeps_queue_def last_state_def)

lemma poll_loop_keeps_queue: "keeps_queue st (snd (poll_loop fsb bd bc xs st ts))"
proof (induction ts arbitrary: xs st)
  case Nil
  then show ?case by (simp add: keeps_queue_Nil)
next
  case (Cons t ts)
  show ?case
  proof (cases "stop_seen t")
    case True
    then show ?thesis by (simp add: keeps_queue_def)
  next
    case False
    let ?xs = "push_sample xs (total_bytes_of bd bc t)"
    show ?thesis
    proof (cases "probe_raises t \<noteq> None \<or> (\<exists>e. raw_progress (average_bytes ?xs) fsb = Inl e)")
      case True
      with False show ?thesis by (auto simp: keeps_queue_def split: option.splits)
    next
      case ok: False
      then obtain pr where Inr: "raw_progress (average_bytes ?xs) fsb = Inr pr"
        by (cases "raw_progress (average_bytes ?xs) fsb") auto
      from ok have np: "probe_raises t = None" by simp
      let ?st = "st\<lparr>download_progress := clamp_progress pr (download_progress st) (alive_at_clamp t),
                     download_speed := speed_text t,
                     status_message := ''Downloading from Steam Workshop...''\<rparr>"
      have "keeps_queue ?st (snd (poll_loop fsb bd bc ?xs ?st ts))" by (rule Cons.IH)
      then have "keeps_queue st (snd (poll_loop fsb bd bc ?xs ?st ts))"
        by (simp add: keeps_queue_def)
      with False Inr np show ?thesis
        by (cases "alive_at_clamp t")
           (auto simp: Let_def keeps_queue_Cons keeps_queue_Nil split: prod.splits)
    qed
  qed
qed

lemma install_keeps_queue: "keeps_queue st (fst (snd (install w wid md st)))"
  by (simp add: install_def Let_def keeps_queue_def split: sum.splits)

lemma after_exit_keeps_queue: "keeps_queue st (fst (snd (after_exit w wid st)))"
proof -
  have "keeps_queue st tr"
    if "install w wid md (st\<lparr>status_message := ''Finalizing download...''\<rparr>) = (e, tr, tg)"
    for md e tr tg
    using install_keeps_queue [of "st\<lparr>status_message := ''Finalizing download...''\<rparr>" w wid md] that
    by (simp add: keeps_queue_def)
  then show ?thesis
    by (auto simp: after_exit_def Let_def keeps_queue_Cons keeps_queue_Nil split: option.splits prod.splits)
qed

lemma try_block_keeps_queue: "keeps_queue st (trace_of (try_block w wid fsb st))"
proof -
  let ?pl = "poll_loop fsb (baseline_download_bytes w) (baseline_content_bytes w) [] st (ticks w)"
  have k1: "keeps_queue st (snd ?pl)" by (rule poll_loop_keeps_queue)
  have q: "queue (last_state st (snd ?pl)) = queue st" using k1 by (rule keeps_queue_last)
  have "keeps_queue (last_state st (snd ?pl)) (fst (snd (after_exit w wid (last_state st (snd ?pl)))))"
    by (rule after_exit_keeps_queue)
  then have k2: "keeps_queue st (fst (snd (after_exit w wid (last_state st (snd ?pl)))))"
    using q by (simp add: keeps_queue_def)
  obtain e tr where pl: "?pl = (e, tr)" by (cases ?pl)
  obtain e2 tr2 tg where ae: "after_exit w wid (last_state st tr) = (e2, tr2, tg)"
    by (cases "after_exit w wid (last_state st tr)") auto
  from k1 pl have k1': "keeps_queue st tr" by simp
  from k2 pl ae have k2': "keeps_queue st tr2" by simp
  have q1: "queue (last_state st tr) = queue st" using k1' by (rule keeps_queue_last)
  have q2: "queue (last_state st (tr @ tr2)) = queue st"
    using k1' k2' by (intro keeps_queue_last) (simp add: keeps_queue_append)
  show ?thesis
    using pl ae k1' k2' q1 q2
    by (cases e; cases e2)
       (simp_all add: try_block_def keeps_queue_append keeps_queue_Cons keeps_queue_Nil)
qed

lemma lookup_and_start_keeps_queue: "keeps_queue st (trace_of (lookup_and_start w wid st))"
proof -
  have "keeps_queue st (trace_of (try_block w wid fsb s1))" if "queue s1 = queue st" for fsb s1
    using try_block_keeps_queue [of s1 w wid fsb] that by (simp add: keeps_queue_def)
  then show ?thesis
    by (auto simp: lookup_and_start_def early_def Let_def keeps_queue_Cons keeps_queue_Nil
        split: sum.splits prod.splits option.splits)
qed

lemma validate_keeps_queue: "keeps_queue st (trace_of (validate w wid st))"
  using lookup_and_start_keeps_queue
  by (auto simp: validate_def raising_def dies_def config_error_def early_def keeps_queue_Cons
      keeps_queue_Nil split: option.splits)

lemma perform_download_keeps_queue: "keeps_queue st (trace_of (perform_download w wid st))"
proof -
  have "keeps_queue st (trace_of (validate w wid' s0))" if "queue s0 = queue st" for wid' s0
    using validate_keeps_queue [of s0 w wid'] that by (simp add: keeps_queue_def)
  then show ?thesis
    by (simp add: perform_download_def Let_def keeps_queue_Cons)
qed

section \<open>The pending queue and the active job\<close>

lemma enqueue_loop_state:
  "snd (enqueue_loop items added st) =
     st\<lparr>queue := queue st @ drop (length added) (fst (enqueue_loop items added st))\<rparr>
   \<and> take (length added) (fst (enqueue_loop items added st)) = added
   \<and> length added \<le> length (fst (enqueue_loop items added st))"
proof (induction items arbitrary: added st)
  case Nil
  then show ?case by simp
next
  case (Cons item items)
  show ?case
  proof (cases "item \<in> set (queue st)")
    case True
    then show ?thesis using Cons.IH [of added st] by simp
  next
    case False
    let ?st = "st\<lparr>queue := queue st @ [item]\<rparr>"
    let ?r = "fst (enqueue_loop items (added @ [item]) ?st)"
    from Cons.IH [of "added @ [item]" ?st]
    have st: "snd (enqueue_loop items (added @ [item]) ?st)
                = ?st\<lparr>queue := queue ?st @ drop (length (added @ [item])) ?r\<rparr>"
      and tk: "take (length (added @ [item])) ?r = added @ [item]"
      and le: "length (added @ [item]) \<le> length ?r"
      by blast+
    have tk': "take (length added) ?r = added"
      using tk by (metis append_eq_conv_conj take_take min.idem length_append_singleton
          min_def le_Suc_eq take_all_iff linorder_not_less not_less_eq_eq order_refl take_append)
    have dr: "drop (length added) ?r = item # drop (Suc (length added)) ?r"
      using tk le
      by (metis Cons_nth_drop_Suc Suc_le_lessD length_append_singleton nth_append_length nth_take lessI)
    show ?thesis using False st tk' le dr by simp
  qed
qed

lemma enqueue_state: "snd (enqueue st items) = st\<lparr>queue := queue st @ fst (enqueue st items)\<rparr>"
  using enqueue_loop_state [of items "[]" st] by (simp add: enqueue_def)

lemma enqueue_loop_distinct:
  "distinct (queue st) \<Longrightarrow> distinct (queue (snd (enqueue_loop items added st)))"
  by (induction items arbitrary: added st) auto



lemma remdups_snoc: "remdups (zs @ [i]) = remdups [j \<leftarrow> zs. j \<noteq> i] @ [i]"
  by (induction zs) auto

lemma enqueue_loop_added:
  "fst (enqueue_loop items added st)
     = added @ rev (remdups (rev [i \<leftarrow> items. i \<notin> set (queue st)]))"
proof (induction items arbitrary: added st)
  case Nil
  then show ?case by simp
next
  case (Cons i items)
  show ?case
  proof (cases "i \<in> set (queue st)")
    case True
    then show ?thesis using Cons.IH [of added st] by simp
  next
    case False
    let ?st = "st\<lparr>queue := queue st @ [i]\<rparr>"
    have f: "[j \<leftarrow> items. j \<notin> set (queue ?st)] = [j \<leftarrow> [j \<leftarrow> items. j \<notin> set (queue st)]. j \<noteq> i]"
      by (induction items) auto
    have "fst (enqueue_loop items (added @ [i]) ?st)
            = (added @ [i]) @ rev (remdups (rev [j \<leftarrow> [j \<leftarrow> items. j \<notin> set (queue st)]. j \<noteq> i]))"
      using Cons.IH [of "added @ [i]" ?st] f by simp
    then show ?thesis using False by (simp add: remdups_snoc rev_filter)
  qed
qed

lemma enqueue_added:
  "fst (enqueue st items) = rev (remdups (rev [i \<leftarrow> items. i \<notin> set (queue st)]))"
  using enqueue_loop_added [of items "[]" st] by (simp add: enqueue_def)

lemma queue_round_head:
  assumes "queue st = x # rest"
  shows "(\<exists>tr'. fst (snd (queue_round w mode st)) = trace_of (perform_download w x st) @ tr')
       \<and> fst (hd (fst (snd (queue_round w mode st)))) = Preparing
       \<and> current_download (snd (hd (fst (snd (queue_round w mode st))))) = Some (py_strip x)
       \<and> queue (snd (hd (fst (snd (queue_round w mode st))))) = x # rest"
proof -
  obtain tr0 s0 where t: "trace_of (perform_download w x st) = (Preparing, s0) # tr0"
    and c: "current_download s0 = Some (py_strip x)" and q: "queue s0 = x # rest"
    using assms by (simp add: perform_download_def Let_def)
  have "\<exists>tr'. fst (snd (queue_round w mode st)) = trace_of (perform_download w x st) @ tr'"
    using assms by (auto simp: queue_round_def Let_def split: sum.splits list.splits)
  then obtain tr' where "fst (snd (queue_round w mode st)) = ((Preparing, s0) # tr0) @ tr'"
    using t by auto
  with c q show ?thesis using t by auto
qed

lemma queue_round_pop:
  assumes "queue st = x # rest" and "outcome (perform_download w x st) = Inr res"
    and "outside_writes w (x # rest) = x # rest"
  shows "\<exists>s. fst (snd (queue_round w mode st)) = trace_of (perform_download w x st) @ [(Popped, s)]
             \<and> queue s = rest
             \<and> fst (queue_round w mode st)
                 = (if \<not> success res \<and> mode = Some ''queue'' then Break s else Continue s)"
proof -
  have q: "queue (last_state st (trace_of (perform_download w x st))) = x # rest"
    using keeps_queue_last [OF perform_download_keeps_queue, of st w x] assms(1) by simp
  show ?thesis using assms q by (simp add: queue_round_def Let_def)
qed


text \<open>
  Claim C2 says that the pending queue never contains the identifier of the active job:
  that \<^verbatim>\<open>enqueue\<close> never adds it and that the queue loop removes an identifier before it
  runs its download. Neither holds. \<^verbatim>\<open>enqueue\<close> looks only at the queue: while item 1
  is the active job and the queue is empty, enqueueing 1 adds it. A round of the queue
  loop reads the head, runs the download and pops afterwards: at the first write of the
  download of item 1 the active job is 1 and the queue is still \<open>[1, 2]\<close>.
\<close>

theorem active_id_in_pending_queue:
  "queue (snd (enqueue busy_with_1 [''1''])) = [''1'']
   \<and> current_download (snd (enqueue busy_with_1 [''1''])) = Some ''1''
   \<and> fst (hd (fst (snd (queue_round failing_world (Some ''queue'') two_pending)))) = Preparing
   \<and> current_download (snd (hd (fst (snd (queue_round failing_world (Some ''queue'') two_pending)))))
       = Some ''1''
   \<and> queue (snd (hd (fst (snd (queue_round failing_world (Some ''queue'') two_pending)))))
       = [''1'', ''2'']"
  by code_simp

text \<open>
  Claim C2 as amended. \<^verbatim>\<open>enqueue\<close> changes nothing but the queue. It compares each given
  identifier with the queue only, not with the active job, and appends, in the order
  given, the first occurrence of every identifier that is not pending yet
  (\<open>rev (remdups (rev xs))\<close> keeps the first occurrence of each element of \<open>xs\<close>); a queue
  without duplicates stays without duplicates. No write of a download changes the
  queue. A round of the queue loop on a queue with head \<open>x\<close> starts with the writes of
  the download of \<open>x\<close>, the first of which makes the stripped \<open>x\<close> the active job while
  \<open>x\<close> is still at the head of the queue; when the download returns and no other thread
  has written the queue meanwhile, the round ends with the removal of \<open>x\<close>, which leaves
  the identifiers that were behind it.
\<close>

theorem pending_queue_discipline:
  "snd (enqueue st items) = st\<lparr>queue := queue st @ fst (enqueue st items)\<rparr>
   \<and> fst (enqueue st items) = rev (remdups (rev [i \<leftarrow> items. i \<notin> set (queue st)]))
   \<and> (distinct (queue st) \<longrightarrow> distinct (queue (snd (enqueue st items))))
   \<and> keeps_queue st (trace_of (perform_download w x st))
   \<and> (queue st = x # rest \<longrightarrow>
        (\<exists>tr'. fst (snd (queue_round w mode st)) = trace_of (perform_download w x st) @ tr')
        \<and> fst (hd (fst (snd (queue_round w mode st)))) = Preparing
        \<and> current_download (snd (hd (fst (snd (queue_round w mode st))))) = Some (py_strip x)
        \<and> queue (snd (hd (fst (snd (queue_round w mode st))))) = x # rest
        \<and> (\<forall>res. outcome (perform_download w x st) = Inr res
                   \<and> outside_writes w (x # rest) = x # rest \<longrightarrow>
              (\<exists>s. fst (snd (queue_round w mode st))
                      = trace_of (perform_download w x st) @ [(Popped, s)]
                   \<and> queue s = rest
                   \<and> fst (queue_round w mode st)
                       = (if \<not> success res \<and> mode = Some ''queue'' then Break s else Continue s))))"
proof -
  have a: "snd (enqueue st items) = st\<lparr>queue := queue st @ fst (enqueue st items)\<rparr>"
    by (rule enqueue_state)
  have b: "fst (enqueue st items) = rev (remdups (rev [i \<leftarrow> items. i \<notin> set (queue st)]))"
    by (rule enqueue_added)
  have c: "distinct (queue st) \<longrightarrow> distinct (queue (snd (enqueue st items)))"
    by (simp add: enqueue_def enqueue_loop_distinct)
  have d: "keeps_queue st (trace_of (perform_download w x st))"
    by (rule perform_download_keeps_queue)
  from a b c d queue_round_head [of st x rest w mode] queue_round_pop [of st x rest w _ mode]
  show ?thesis by blast
qed

theorem pending_queue_discipline_witness:
  "queue (snd (enqueue initial_app_state [''1'', ''2'', ''1''])) = [''1'', ''2'']
   \<and> fst (enqueue initial_app_state [''1'', ''2'', ''1'']) = [''1'', ''2'']
   \<and> snd (enqueue two_pending [''2'', ''3'', ''3'']) = two_pending\<lparr>queue := [''1'', ''2'', ''3'']\<rparr>
   \<and> distinct (queue two_pending) \<and> distinct (queue (snd (enqueue two_pending [''2'', ''3'', ''3''])))
   \<and> keeps_queue two_pending (trace_of (perform_download failing_world ''1'' two_pending))
   \<and> queue two_pending = ''1'' # [''2'']
   \<and> outcome (perform_download failing_world ''1'' two_pending)
       = Inr \<lparr>success = False, message = ''SteamCMD failed to download the item''\<rparr>
   \<and> outside_writes failing_world (''1'' # [''2'']) = ''1'' # [''2'']
   \<and> queue (snd (hd (fst (snd (queue_round failing_world (Some ''queue'') two_pending)))))
       = ''1'' # [''2'']
   \<and> queue (snd (last (fst (snd (queue_round failing_world (Some ''queue'') two_pending))))) = [''2'']"
proof -
  have e1: "fst (enqueue initial_app_state [''1'', ''2'', ''1'']) = [''1'', ''2'']" by code_simp
  have e2: "fst (enqueue two_pending [''2'', ''3'', ''3'']) = [''3'']" by code_simp
  have q0: "queue initial_app_state = []" by (simp add: initial_app_state_def)
  have h1: "queue two_pending = ''1'' # [''2'']" by (simp add: two_pending_def)
  have d: "distinct (queue two_pending)" by (simp add: two_pending_def)
  have h2: "outcome (perform_download failing_world ''1'' two_pending)
       = Inr \<lparr>success = False, message = ''SteamCMD failed to download the item''\<rparr>"
    by code_simp
  have h3: "outside_writes failing_world (''1'' # [''2'']) = ''1'' # [''2'']"
    by (simp add: failing_world_def sample_world_def)
  note t0 = pending_queue_discipline [of initial_app_state "[''1'', ''2'', ''1'']" failing_world "''1''" "[''2'']" "Some ''queue''"]
  note t1 = pending_queue_discipline [of two_pending "[''2'', ''3'', ''3'']" failing_world "''1''" "[''2'']" "Some ''queue''"]
  from t0 e1 q0 have w1: "queue (snd (enqueue initial_app_state [''1'', ''2'', ''1''])) = [''1'', ''2'']"
    by simp
  from t1 e2 h1 have w2: "snd (enqueue two_pending [''2'', ''3'', ''3'']) = two_pending\<lparr>queue := [''1'', ''2'', ''3'']\<rparr>"
    by simp
  from t1 d have w3: "distinct (queue (snd (enqueue two_pending [''2'', ''3'', ''3''])))" by blast
  from t1 have w4: "keeps_queue two_pending (trace_of (perform_download failing_world ''1'' two_pending))"
    by blast
  from t1 h1 have w5: "queue (snd (hd (fst (snd (queue_round failing_world (Some ''queue'') two_pending)))))
       = ''1'' # [''2'']" by blast
  from t1 h1 h2 h3 obtain s where
    "fst (snd (queue_round failing_world (Some ''queue'') two_pending))
       = trace_of (perform_download failing_world ''1'' two_pending) @ [(Popped, s)]"
    and "queue s = [''2'']" by blast
  then have w6: "queue (snd (last (fst (snd (queue_round failing_world (Some ''queue'') two_pending))))) = [''2'']"
    by simp
  from e1 w1 w2 d w3 w4 h1 h2 h3 w5 w6 show ?thesis by blast
qed

section \<open>The queue loop after a failed job\<close>

text \<open>
  Claim C5 says that in queue mode the loop, after a failed job, goes past the failed
  identifier and on to the remaining pending identifiers, in their order. The comment in
  the failure branch says as much (\<^verbatim>\<open>keep the failing item in the queue but move on\<close>),
  but the branch pops the identifier and leaves the loop through \<^verbatim>\<open>break\<close>: with the
  queue \<open>[1, 2]\<close> and SteamCMD failing on item 1, only item 1 is run and item 2 is
  still pending when the thread ends; when item 1 succeeds, both are run.
\<close>

theorem failed_job_ends_queue_run:
  "map_option ran (process_queue [failing_world, sample_world] (Some ''queue'') False two_pending)
     = Some [''1'']
   \<and> map_option died (process_queue [failing_world, sample_world] (Some ''queue'') False two_pending)
     = Some None
   \<and> map_option (\<lambda>r. queue (snd (last (thread_trace r))))
        (process_queue [failing_world, sample_world] (Some ''queue'') False two_pending)
     = Some [''2'']
   \<and> map_option ran (process_queue [sample_world, sample_world] (Some ''queue'') False two_pending)
     = Some [''1'', ''2'']"
  by code_simp

section \<open>Malformed identifiers\<close>

lemma dropWhile_rev_fixed:
  assumes "w = [] \<or> \<not> P (hd w)"
  shows "dropWhile P (rev (dropWhile P (rev w))) = rev (dropWhile P (rev w))"
proof (cases w)
  case Nil
  then show ?thesis by simp
next
  case (Cons a v)
  with assms have a: "\<not> P a" by simp
  have "dropWhile P (rev w) = (if \<forall>x\<in>set (rev v). P x then [a] else dropWhile P (rev v) @ [a])"
    using Cons a by (simp add: dropWhile_append)
  then have "\<exists>u. dropWhile P (rev w) = u @ [a]"
    by (cases "\<forall>x\<in>set (rev v). P x") simp_all
  then obtain u where u: "dropWhile P (rev w) = u @ [a]" ..
  show ?thesis using a u by simp
qed

lemma py_strip_idem: "py_strip (py_strip s) = py_strip s"
proof -
  let ?w = "dropWhile py_isspace s"
  have w: "?w = [] \<or> \<not> py_isspace (hd ?w)" by (metis hd_dropWhile)
  let ?u = "dropWhile py_isspace (rev ?w)"
  have "dropWhile py_isspace (rev ?u) = rev ?u" using dropWhile_rev_fixed [where P = py_isspace and w = ?w, OF w] .
  moreover have "dropWhile py_isspace ?u = ?u" by (rule dropWhile_idem)
  ultimately show ?thesis by (simp add: py_strip_def)
qed


lemma extract_workshop_id_strip: "extract_workshop_id (py_strip s) = extract_workshop_id s"
  by (simp add: extract_workshop_id_def py_strip_idem)


text \<open>
  Claim C8 says that a malformed identifier is rejected before admission, so that no
  worker is started and no job enters a non-terminal phase. The route refuses only a
  false value (missing or empty). For \<^verbatim>\<open>abc\<close> on an idle manager the request is answered
  with \<^verbatim>\<open>Download started\<close>, the worker thread is started, and its first write puts the
  job in the phase \<^verbatim>\<open>preparing\<close> with \<^verbatim>\<open>downloading\<close> set; the identifier is examined only
  afterwards, inside the worker.
\<close>

theorem malformed_id_is_admitted:
  "download_workshop_item idle_manager initial_app_state (JStr ''abc'') =
     (\<lparr>http_status = 200, body_success = True, body_message = ''Download started''\<rparr>,
      \<lparr>thread = Some True, queue_thread = None, stop_event = False, current_mode = Some ''single''\<rparr>,
      initial_app_state, Some (RunDownload (JStr ''abc'')))
   \<and> map fst (thread_trace (run_download sample_world (Some ''single'') (JStr ''abc'') initial_app_state))
       = [Preparing, InvalidId, Released]
   \<and> download_status (snd (hd (thread_trace
          (run_download sample_world (Some ''single'') (JStr ''abc'') initial_app_state))))
       = ''preparing''
   \<and> downloading (snd (hd (thread_trace
          (run_download sample_world (Some ''single'') (JStr ''abc'') initial_app_state))))"
  by code_simp

text \<open>
  Claim C8 as amended. Only a false identifier (missing, null, empty) is rejected before
  admission (status 400, no thread). Every other identifier is admitted when no worker
  is busy: the route answers with success and the worker is started. An identifier that
  is not a string ends the worker with AttributeError before any write. For a string
  from which no numeric id can be extracted, the job enters the phase \<^verbatim>\<open>preparing\<close>;
  when both settings can be read, are not blank and can be turned into paths, it then
  ends in the phase \<^verbatim>\<open>error\<close> with the message \<^verbatim>\<open>Invalid Workshop ID\<close>, before any
  external process is started; when turning the destination setting into a path raises,
  the worker thread ends with that exception and the job is left in \<^verbatim>\<open>preparing\<close>.
\<close>

theorem malformed_id_rejected_in_worker:
  assumes "\<not> is_busy m"
    and "extract_workshop_id workshop_id = None"
  shows "(\<forall>v. \<not> truthy v \<longrightarrow>
            download_workshop_item m st v =
              (\<lparr>http_status = 400, body_success = False, body_message = ''Workshop ID is required''\<rparr>,
               m, st, None))
       \<and> (\<forall>v. truthy v \<longrightarrow>
            download_workshop_item m st v =
              (\<lparr>http_status = 200, body_success = True, body_message = ''Download started''\<rparr>,
               m\<lparr>stop_event := False, thread := Some True, current_mode := Some ''single''\<rparr>, st,
               Some (RunDownload v)))
       \<and> (\<forall>t b. run_download w mode (JNonStr t b) st =
            \<lparr>died = Some AttributeError, thread_trace = [], ran = [], mode_after = mode\<rparr>)
       \<and> fst (hd (trace_of (perform_download w workshop_id st))) = Preparing
       \<and> download_status (snd (hd (trace_of (perform_download w workshop_id st)))) = ''preparing''
       \<and> (raises_at w ReadDestinationSetting = None \<and> raises_at w ReadSteamcmdSetting = None
            \<and> py_strip (destination_setting w) \<noteq> [] \<and> py_strip (steamcmd_setting w) \<noteq> []
            \<and> raises_at w ExpandDestination = None \<and> raises_at w ExpandSteamcmd = None \<longrightarrow>
              outcome (perform_download w workshop_id st)
                = Inr \<lparr>success = False, message = ''Invalid Workshop ID''\<rparr>
            \<and> map fst (trace_of (perform_download w workshop_id st)) = [Preparing, InvalidId]
            \<and> map (\<lambda>(p, s). download_status s) (trace_of (perform_download w workshop_id st))
                = [''preparing'', ''error'']
            \<and> \<not> process_started (perform_download w workshop_id st))
       \<and> (\<forall>e. raises_at w ReadDestinationSetting = None \<and> raises_at w ReadSteamcmdSetting = None
            \<and> py_strip (destination_setting w) \<noteq> [] \<and> py_strip (steamcmd_setting w) \<noteq> []
            \<and> raises_at w ExpandDestination = Some e \<longrightarrow>
              outcome (perform_download w workshop_id st) = Inl e
            \<and> map fst (trace_of (perform_download w workshop_id st)) = [Preparing])"
proof -
  have nd: "\<not> py_isdigit (py_strip workshop_id)"
    using assms(2) by (auto simp: extract_workshop_id_def Let_def split: if_splits)
  have ex: "extract_workshop_id (py_strip workshop_id) = None"
    using assms(2) by (simp add: extract_workshop_id_strip)
  have a: "\<forall>v. \<not> truthy v \<longrightarrow>
            download_workshop_item m st v =
              (\<lparr>http_status = 400, body_success = False, body_message = ''Workshop ID is required''\<rparr>,
               m, st, None)"
    by (simp add: download_workshop_item_def)
  have b: "\<forall>v. truthy v \<longrightarrow>
            download_workshop_item m st v =
              (\<lparr>http_status = 200, body_success = True, body_message = ''Download started''\<rparr>,
               m\<lparr>stop_event := False, thread := Some True, current_mode := Some ''single''\<rparr>, st,
               Some (RunDownload v))"
    using assms(1) by (simp add: download_workshop_item_def start_download_def)
  have c: "\<forall>t b. run_download w mode (JNonStr t b) st =
            \<lparr>died = Some AttributeError, thread_trace = [], ran = [], mode_after = mode\<rparr>"
    by (simp add: run_download_def)
  have d: "fst (hd (trace_of (perform_download w workshop_id st))) = Preparing"
    and e: "download_status (snd (hd (trace_of (perform_download w workshop_id st)))) = ''preparing''"
    by (simp_all add: perform_download_def Let_def)
  have f: "outcome (perform_download w workshop_id st)
                = Inr \<lparr>success = False, message = ''Invalid Workshop ID''\<rparr>
            \<and> map fst (trace_of (perform_download w workshop_id st)) = [Preparing, InvalidId]
            \<and> map (\<lambda>(p, s). download_status s) (trace_of (perform_download w workshop_id st))
                = [''preparing'', ''error'']
            \<and> \<not> process_started (perform_download w workshop_id st)"
    if "raises_at w ReadDestinationSetting = None" "raises_at w ReadSteamcmdSetting = None"
      "py_strip (destination_setting w) \<noteq> []" "py_strip (steamcmd_setting w) \<noteq> []"
      "raises_at w ExpandDestination = None" "raises_at w ExpandSteamcmd = None"
  proof -
    have "validate w (py_strip workshop_id) s0 =
             early InvalidId (s0\<lparr>download_status := ''error'', status_message := ''Invalid Workshop ID''\<rparr>)
               ''Invalid Workshop ID''" for s0
      using nd ex that by (simp add: validate_def raising_def)
    then show ?thesis by (simp add: perform_download_def Let_def early_def)
  qed
  have g: "outcome (perform_download w workshop_id st) = Inl e
            \<and> map fst (trace_of (perform_download w workshop_id st)) = [Preparing]"
    if "raises_at w ReadDestinationSetting = None" "raises_at w ReadSteamcmdSetting = None"
      "py_strip (destination_setting w) \<noteq> []" "py_strip (steamcmd_setting w) \<noteq> []"
      "raises_at w ExpandDestination = Some e" for e
  proof -
    have "validate w (py_strip workshop_id) s0 = dies e" for s0
      using that by (simp add: validate_def raising_def)
    then show ?thesis by (simp add: perform_download_def Let_def dies_def)
  qed
  from a b c d e f g show ?thesis by blast
qed


theorem malformed_id_rejected_in_worker_witness:
  "\<not> is_busy idle_manager \<and> extract_workshop_id ''abc'' = None
   \<and> download_workshop_item idle_manager initial_app_state (JStr []) =
        (\<lparr>http_status = 400, body_success = False, body_message = ''Workshop ID is required''\<rparr>,
         idle_manager, initial_app_state, None)
   \<and> download_workshop_item idle_manager initial_app_state (JStr ''abc'') =
        (\<lparr>http_status = 200, body_success = True, body_message = ''Download started''\<rparr>,
         idle_manager\<lparr>stop_event := False, thread := Some True, current_mode := Some ''single''\<rparr>,
         initial_app_state, Some (RunDownload (JStr ''abc'')))
   \<and> run_download sample_world (Some ''single'') (JNonStr ''5'' True) initial_app_state =
        \<lparr>died = Some AttributeError, thread_trace = [], ran = [], mode_after = Some ''single''\<rparr>
   \<and> outcome (perform_download sample_world ''abc'' initial_app_state)
        = Inr \<lparr>success = False, message = ''Invalid Workshop ID''\<rparr>
   \<and> map fst (trace_of (perform_download sample_world ''abc'' initial_app_state))
        = [Preparing, InvalidId]
   \<and> \<not> process_started (perform_download sample_world ''abc'' initial_app_state)
   \<and> outcome (perform_download no_home ''abc'' initial_app_state) = Inl RuntimeError
   \<and> map fst (trace_of (perform_download no_home ''abc'' initial_app_state)) = [Preparing]"
proof -
  have h1: "\<not> is_busy idle_manager" by (simp add: is_busy_def idle_manager_def)
  have h2: "extract_workshop_id ''abc'' = None" by code_simp
  have t1: "\<not> truthy (JStr [])" and t2: "truthy (JStr ''abc'')" by (simp_all add: truthy_def)
  have s1: "raises_at sample_world ReadDestinationSetting = None \<and> raises_at sample_world ReadSteamcmdSetting = None
            \<and> py_strip (destination_setting sample_world) \<noteq> [] \<and> py_strip (steamcmd_setting sample_world) \<noteq> []
            \<and> raises_at sample_world ExpandDestination = None \<and> raises_at sample_world ExpandSteamcmd = None"
    by code_simp
  have s2: "raises_at no_home ReadDestinationSetting = None \<and> raises_at no_home ReadSteamcmdSetting = None
            \<and> py_strip (destination_setting no_home) \<noteq> [] \<and> py_strip (steamcmd_setting no_home) \<noteq> []
            \<and> raises_at no_home ExpandDestination = Some RuntimeError"
    by code_simp
  note a = malformed_id_rejected_in_worker [OF h1 h2, of initial_app_state sample_world "Some ''single''"]
  note b = malformed_id_rejected_in_worker [OF h1 h2, of initial_app_state no_home "Some ''single''"]
  from a t1 have w1: "download_workshop_item idle_manager initial_app_state (JStr []) =
        (\<lparr>http_status = 400, body_success = False, body_message = ''Workshop ID is required''\<rparr>,
         idle_manager, initial_app_state, None)" by blast
  from a t2 have w2: "download_workshop_item idle_manager initial_app_state (JStr ''abc'') =
        (\<lparr>http_status = 200, body_success = True, body_message = ''Download started''\<rparr>,
         idle_manager\<lparr>stop_event := False, thread := Some True, current_mode := Some ''single''\<rparr>,
         initial_app_state, Some (RunDownload (JStr ''abc'')))" by blast
  from a have w3: "run_download sample_world (Some ''single'') (JNonStr ''5'' True) initial_app_state =
        \<lparr>died = Some AttributeError, thread_trace = [], ran = [], mode_after = Some ''single''\<rparr>"
    by blast
  from a s1 have w4: "outcome (perform_download sample_world ''abc'' initial_app_state)
        = Inr \<lparr>success = False, message = ''Invalid Workshop ID''\<rparr>"
    and w5: "map fst (trace_of (perform_download sample_world ''abc'' initial_app_state))
        = [Preparing, InvalidId]"
    and w6: "\<not> process_started (perform_download sample_world ''abc'' initial_app_state)"
    by blast+
  from b s2 have w7: "outcome (perform_download no_home ''abc'' initial_app_state) = Inl RuntimeError"
    and w8: "map fst (trace_of (perform_download no_home ''abc'' initial_app_state)) = [Preparing]"
    by blast+
  from h1 h2 w1 w2 w3 w4 w5 w6 w7 w8 show ?thesis by blast
qed

section \<open>The progress invariant along a job\<close>

lemma has_exit_simps [simp]:
  "has_exit [] = False"
  "has_exit ((p, s) # tr) = (p = Polled False \<or> p = Completed \<or> has_exit tr)"
  by (auto simp: has_exit_def)

lemma steady_append:
  "steady ex c (tr @ tr2) =
     (steady ex c tr \<and> steady (ex \<or> has_exit tr)
        (if tr = [] then c else download_progress (snd (last tr))) tr2)"
  by (induction tr arbitrary: ex c) (auto simp: has_exit_def)

lemma steady_weaken: "steady ex c tr \<Longrightarrow> steady True c tr"
  by (induction tr arbitrary: ex c) auto

lemma steady_last:
  "steady ex c tr \<Longrightarrow> c \<le> 100 \<Longrightarrow> (\<not> ex \<longrightarrow> c \<le> 99) \<Longrightarrow> download_progress st = c \<Longrightarrow>
     c \<le> download_progress (last_state st tr) \<and> download_progress (last_state st tr) \<le> 100
     \<and> (\<not> (ex \<or> has_exit tr) \<longrightarrow> download_progress (last_state st tr) \<le> 99)"
proof (induction tr arbitrary: ex c st)
  case Nil
  then show ?case by (simp add: last_state_def)
next
  case (Cons a tr)
  obtain p s where a: "a = (p, s)" by (cases a)
  from Cons.prems a have st: "steady (ex \<or> p = Polled False \<or> p = Completed) (download_progress s) tr"
    and b: "c \<le> download_progress s" "download_progress s \<le> 100"
      "\<not> (ex \<or> p = Polled False \<or> p = Completed) \<longrightarrow> download_progress s \<le> 99"
    by simp_all
  from Cons.IH [OF st b(2) b(3) refl]
  have "download_progress s \<le> download_progress (last_state s tr)"
    "download_progress (last_state s tr) \<le> 100"
    "\<not> ((ex \<or> p = Polled False \<or> p = Completed) \<or> has_exit tr) \<longrightarrow> download_progress (last_state s tr) \<le> 99"
    by simp_all
  moreover have "last_state st (a # tr) = last_state s tr"
    using a by (simp add: last_state_def)
  ultimately show ?case using b a by auto
qed

lemma steady_sorted:
  "steady ex c tr \<Longrightarrow> sorted (c # map (\<lambda>(p, s). download_progress s) tr)"
proof (induction tr arbitrary: ex c)
  case Nil
  then show ?case by simp
next
  case (Cons a tr)
  obtain p s where a: "a = (p, s)" by (cases a)
  from Cons.prems a have "steady (ex \<or> p = Polled False \<or> p = Completed) (download_progress s) tr"
    and le: "c \<le> download_progress s" by simp_all
  from Cons.IH [OF this(1)] have "sorted (download_progress s # map (\<lambda>(p, s). download_progress s) tr)" .
  with le a show ?case by auto
qed

lemma steady_bounds:
  "steady ex c tr \<Longrightarrow> (p, s) \<in> set tr \<Longrightarrow>
     c \<le> download_progress s \<and> download_progress s \<le> 100 \<and> (p = Polled True \<longrightarrow> download_progress s \<le> 99)"
proof (induction tr arbitrary: ex c)
  case Nil
  then show ?case by simp
next
  case (Cons a tr)
  obtain q t where a: "a = (q, t)" by (cases a)
  show ?case
  proof (cases "(p, s) = a")
    case True
    with Cons.prems a show ?thesis by auto
  next
    case False
    with Cons.prems have m: "(p, s) \<in> set tr" by simp
    from Cons.prems a have st: "steady (ex \<or> q = Polled False \<or> q = Completed) (download_progress t) tr"
      and le: "c \<le> download_progress t" by simp_all
    from Cons.IH [OF st m] le show ?thesis by auto
  qed
qed

lemma steady_below: "steady False c tr \<Longrightarrow> below_100_until_exit tr"
proof (induction tr arbitrary: c)
  case Nil
  then show ?case by simp
next
  case (Cons a tr)
  obtain p s where a: "a = (p, s)" by (cases a)
  show ?case
  proof (cases "p = Polled False \<or> p = Completed")
    case True
    with a show ?thesis by auto
  next
    case False
    with Cons.prems a have "steady False (download_progress s) tr" "download_progress s \<le> 99"
      by auto
    with Cons.IH a show ?thesis by auto
  qed
qed

lemma raw_progress_le: "raw_progress a f = Inr p \<Longrightarrow> p \<le> 100"
  by (auto simp: raw_progress_def split: if_splits sum.splits)

lemma clamp_progress_bounds:
  "c \<le> 99 \<Longrightarrow> p \<le> 100 \<Longrightarrow>
     c \<le> clamp_progress p c alive \<and> clamp_progress p c alive \<le> 100
     \<and> (alive \<longrightarrow> clamp_progress p c alive \<le> 99)"
  by (auto simp: clamp_progress_def Let_def)

lemma poll_loop_steady:
  "download_progress st \<le> 99 \<Longrightarrow>
     steady False (download_progress st) (snd (poll_loop fsb bd bc xs st ts))"
proof (induction ts arbitrary: xs st)
  case Nil
  then show ?case by simp
next
  case (Cons t ts)
  show ?case
  proof (cases "stop_seen t")
    case True
    with Cons.prems show ?thesis by simp
  next
    case False
    let ?xs = "push_sample xs (total_bytes_of bd bc t)"
    show ?thesis
    proof (cases "probe_raises t \<noteq> None \<or> (\<exists>e. raw_progress (average_bytes ?xs) fsb = Inl e)")
      case True
      with False show ?thesis by (auto split: option.splits)
    next
      case ok: False
      then obtain pr where Inr: "raw_progress (average_bytes ?xs) fsb = Inr pr"
        by (cases "raw_progress (average_bytes ?xs) fsb") auto
      from ok have np: "probe_raises t = None" by simp
      let ?v = "clamp_progress pr (download_progress st) (alive_at_clamp t)"
      let ?st = "st\<lparr>download_progress := ?v, download_speed := speed_text t,
                     status_message := ''Downloading from Steam Workshop...''\<rparr>"
      have b: "download_progress st \<le> ?v" "?v \<le> 100" "alive_at_clamp t \<longrightarrow> ?v \<le> 99"
        using clamp_progress_bounds [OF Cons.prems raw_progress_le [OF Inr]] by simp_all
      show ?thesis
      proof (cases "alive_at_clamp t")
        case True
        with b have "download_progress ?st \<le> 99" by simp
        from Cons.IH [OF this, of ?xs]
        have "steady False ?v (snd (poll_loop fsb bd bc ?xs ?st ts))" by simp
        with False Inr np True b show ?thesis
          by (auto simp: Let_def split: prod.splits)
      next
        case F: False
        with False Inr np b show ?thesis by (simp add: Let_def)
      qed
    qed
  qed
qed

lemma install_steady:
  "download_progress st \<le> 100 \<Longrightarrow> (\<not> ex \<longrightarrow> download_progress st \<le> 99) \<Longrightarrow>
     steady ex (download_progress st) (fst (snd (install w wid md st)))"
  by (simp add: install_def Let_def split: sum.splits)

lemma after_exit_steady:
  assumes "download_progress st \<le> 100" and "\<not> ex \<longrightarrow> download_progress st \<le> 99"
  shows "steady ex (download_progress st) (fst (snd (after_exit w wid st)))"
proof -
  let ?s1 = "st\<lparr>status_message := ''Finalizing download...''\<rparr>"
  have "steady ex (download_progress st) tr" if "install w wid md ?s1 = (e, tr, tg)" for md e tr tg
    using install_steady [of ?s1 ex w wid md] assms that by simp
  with assms show ?thesis
    by (auto simp: after_exit_def Let_def split: option.splits prod.splits)
qed

lemma steady_append_state:
  assumes "download_progress st = c"
  shows "steady ex c (tr @ tr2) =
           (steady ex c tr \<and> steady (ex \<or> has_exit tr) (download_progress (last_state st tr)) tr2)"
  using assms by (simp add: steady_append last_state_def)

lemma steady_excepted:
  assumes "steady ex c tr" and "c \<le> 100" and "\<not> ex \<longrightarrow> c \<le> 99" and "download_progress st = c"
    and "download_progress s' = download_progress (last_state st tr)"
  shows "steady ex c (tr @ [(Excepted, s')])"
  using steady_last [OF assms(1-4)] assms
  by (simp add: steady_append_state [OF assms(4)])

lemma try_block_steady:
  assumes "download_progress st \<le> 99"
  shows "steady False (download_progress st) (trace_of (try_block w wid fsb st))"
proof -
  let ?c = "download_progress st"
  let ?pl = "poll_loop fsb (baseline_download_bytes w) (baseline_content_bytes w) [] st (ticks w)"
  obtain e tr where pl: "?pl = (e, tr)" by (cases ?pl)
  have s1: "steady False ?c tr" using poll_loop_steady [OF assms, of fsb _ _ "[]" "ticks w"] pl
    by (metis snd_conv)
  have c100: "?c \<le> 100" and c99: "\<not> False \<longrightarrow> ?c \<le> 99" using assms by simp_all
  note l1 = steady_last [OF s1 c100 c99 refl]
  show ?thesis
  proof (cases e)
    case ProcessExited
    let ?s = "last_state st tr"
    obtain e2 tr2 tg where ae: "after_exit w wid ?s = (e2, tr2, tg)"
      by (cases "after_exit w wid ?s") auto
    have s2: "steady (has_exit tr) (download_progress ?s) tr2"
      using after_exit_steady [of ?s "has_exit tr" w wid] l1 ae by simp
    have s12: "steady False ?c (tr @ tr2)"
      using s1 s2 by (simp add: steady_append_state [of st ?c])
    show ?thesis
    proof (cases e2)
      case (Return r)
      with pl ProcessExited ae s12 show ?thesis by (simp add: try_block_def)
    next
      case (Raise x)
      have "steady False ?c ((tr @ tr2) @ [(Excepted, (last_state st (tr @ tr2))\<lparr>download_status := ''error'',
              status_message := exception_text w x, downloading := False\<rparr>)])"
        by (rule steady_excepted [OF s12 c100 c99 refl]) simp
      with pl ProcessExited ae Raise show ?thesis by (simp add: try_block_def)
    qed
  next
    case (LoopReturn r)
    with pl s1 show ?thesis by (simp add: try_block_def)
  next
    case (LoopRaise x)
    have "steady False ?c (tr @ [(Excepted, (last_state st tr)\<lparr>download_status := ''error'',
              status_message := exception_text w x, downloading := False\<rparr>)])"
      by (rule steady_excepted [OF s1 c100 c99 refl]) simp
    with pl LoopRaise show ?thesis by (simp add: try_block_def)
  qed
qed

lemma validate_cases:
  assumes "\<And>e. P (dies e)" and "\<And>a b. P (config_error st a b)"
    and "P (early InvalidId (st\<lparr>download_status := ''error'', status_message := ''Invalid Workshop ID''\<rparr>)
              ''Invalid Workshop ID'')"
    and "\<And>wid'. P (lookup_and_start w wid' st)"
  shows "P (validate w wid st)"
proof -
  have r: "P (raising w c rest)" if "P rest" for c rest
    using that assms(1) by (simp add: raising_def split: option.splits)
  have i: "P (if c then x else y)" if "P x" "P y" for c x y
    using that by simp
  have o: "P (case v of None \<Rightarrow> x | Some z \<Rightarrow> f z)" if "P x" "\<And>z. P (f z)" for v x f
    using that by (cases v) simp_all
  show ?thesis
    unfolding validate_def by (intro r i o assms)
qed

lemma lookup_and_start_steady:
  assumes "download_progress st = 0"
  shows "steady False 0 (trace_of (lookup_and_start w wid st))"
proof -
  have "steady False 0 (trace_of (try_block w wid fsb s1))" if "download_progress s1 = 0" for fsb s1
    using try_block_steady [of s1 w wid fsb] that by simp
  with assms show ?thesis
    by (auto simp: lookup_and_start_def early_def Let_def split: sum.splits prod.splits option.splits)
qed

lemma validate_steady:
  assumes "download_progress st = 0"
  shows "steady False 0 (trace_of (validate w wid st))"
  by (rule validate_cases)
     (simp_all add: dies_def config_error_def early_def assms lookup_and_start_steady [OF assms])

lemma perform_download_steady: "steady False 0 (trace_of (perform_download w wid st))"
proof -
  have "steady False 0 (trace_of (validate w wid' s0))" if "download_progress s0 = 0" for wid' s0
    using validate_steady [OF that] .
  then show ?thesis by (simp add: perform_download_def Let_def)
qed

lemma ends_completed_Cons: "ends_completed tr \<Longrightarrow> ends_completed (a # tr)"
  by (auto simp: ends_completed_def)

lemma ends_completed_append: "ends_completed tr2 \<Longrightarrow> ends_completed (tr @ tr2)"
  by (auto simp: ends_completed_def)

lemma install_completed:
  "install w wid md st = (Return res, tr, tg) \<Longrightarrow> success res \<Longrightarrow> ends_completed tr"
  by (auto simp: install_def Let_def ends_completed_def split: sum.splits if_splits)

lemma after_exit_completed:
  "after_exit w wid st = (Return res, tr, tg) \<Longrightarrow> success res \<Longrightarrow> ends_completed tr"
  by (auto simp: after_exit_def Let_def split: if_splits option.splits prod.splits
      dest: install_completed intro: ends_completed_Cons)

lemma poll_loop_no_success:
  "poll_loop fsb bd bc xs st ts = (LoopReturn res, tr) \<Longrightarrow> \<not> success res"
proof (induction ts arbitrary: xs st tr)
  case Nil
  then show ?case by simp
next
  case (Cons t ts)
  then show ?case
    by (auto simp: Let_def split: if_splits sum.splits prod.splits option.splits)
qed

lemma try_block_completed:
  assumes "outcome (try_block w wid fsb st) = Inr res" and "success res"
  shows "ends_completed (trace_of (try_block w wid fsb st))"
proof -
  let ?pl = "poll_loop fsb (baseline_download_bytes w) (baseline_content_bytes w) [] st (ticks w)"
  obtain e tr where pl: "?pl = (e, tr)" by (cases ?pl)
  show ?thesis
  proof (cases e)
    case ProcessExited
    obtain e2 tr2 tg where ae: "after_exit w wid (last_state st tr) = (e2, tr2, tg)"
      by (cases "after_exit w wid (last_state st tr)") auto
    show ?thesis
    proof (cases e2)
      case (Return r)
      with pl ProcessExited ae assms have "r = res" by (simp add: try_block_def)
      with after_exit_completed [of w wid "last_state st tr" res tr2 tg] ae Return assms(2)
      have "ends_completed tr2" by simp
      with pl ProcessExited ae Return show ?thesis
        by (simp add: try_block_def ends_completed_append)
    next
      case (Raise x)
      with pl ProcessExited ae assms show ?thesis by (auto simp: try_block_def)
    qed
  next
    case (LoopReturn r)
    with pl assms have "r = res" by (simp add: try_block_def)
    with poll_loop_no_success pl LoopReturn assms(2) show ?thesis by blast
  next
    case (LoopRaise x)
    with pl assms show ?thesis by (auto simp: try_block_def)
  qed
qed

lemma lookup_and_start_completed:
  assumes "outcome (lookup_and_start w wid st) = Inr res" and "success res"
  shows "ends_completed (trace_of (lookup_and_start w wid st))"
proof -
  have "ends_completed (a # trace_of (try_block w wid fsb s1))"
    if "outcome (try_block w wid fsb s1) = Inr res" for fsb s1 a
    using try_block_completed [OF that assms(2)] by (rule ends_completed_Cons)
  with assms show ?thesis
    by (auto simp: lookup_and_start_def early_def Let_def split: sum.splits prod.splits if_splits option.splits)
qed

lemma validate_completed:
  "outcome (validate w wid st) = Inr res \<longrightarrow> success res \<longrightarrow>
     ends_completed (trace_of (validate w wid st))"
  by (rule validate_cases)
     (auto simp: dies_def config_error_def early_def dest: lookup_and_start_completed)

lemma perform_download_completed:
  assumes "outcome (perform_download w wid st) = Inr res" and "success res"
  shows "ends_completed (trace_of (perform_download w wid st))"
proof -
  have "ends_completed (a # trace_of (validate w wid' s0))"
    if "outcome (validate w wid' s0) = Inr res" for wid' s0 a
    using validate_completed [of w wid' s0 res] that assms(2) by (simp add: ends_completed_Cons)
  with assms show ?thesis
    by (simp add: perform_download_def Let_def)
qed

section \<open>Reported progress\<close>

text \<open>
  Claim C3 says that the reported progress of a job never decreases until the job is in a
  terminal phase, that it is at most 99 while the external process has not exited, and
  that 100 is reported only upon confirmed successful completion. The first two parts
  hold; the last one does not. The cap at 99 is guarded by \<^verbatim>\<open>self.process.poll() is None\<close>
  (line 604), so a round that finds the process gone reports an estimate of 100 as it is,
  before the exit code is read. In the world \<^term>\<open>full_then_failed\<close> the only round
  sees all 100 expected bytes and the exit of SteamCMD, whose exit code is 1: the job
  reports 100 in the phase \<^verbatim>\<open>downloading\<close> and ends in the phase \<^verbatim>\<open>error\<close>, still at
  100.
\<close>

theorem full_progress_on_failed_job:
  "map (\<lambda>(p, s). (p, download_progress s, download_status s))
     (trace_of (perform_download full_then_failed ''999'' initial_app_state))
     = [(Preparing, 0, ''preparing''), (Downloading, 0, ''downloading''),
        (Polled False, 100, ''downloading''), (ExitError, 100, ''error'')]
   \<and> outcome (perform_download full_then_failed ''999'' initial_app_state)
       = Inr \<lparr>success = False, message = ''SteamCMD failed to download the item''\<rparr>"
  by code_simp

text \<open>
  Claim C3 as amended. The trace of \<^term>\<open>perform_download\<close> lists every write of the job
  to the status record, from the first one (the phase \<^verbatim>\<open>preparing\<close>, which sets the
  progress to 0) to the last; no other thread writes the progress. In every world, for
  every identifier and every state the job starts from:
  \<^item> the progress values written are in non-decreasing order, and each lies between 0 and
    100;
  \<^item> a round that found the process still running at the test of line 604
    (\<^term>\<open>Polled True\<close>) writes at most 99;
  \<^item> every write before the first round that found the process gone
    (\<^term>\<open>Polled False\<close>) and before the write of the phase \<^verbatim>\<open>completed\<close> is at most
    99 (\<^term>\<open>below_100_until_exit\<close>): 100 is first reported by such a round, whatever
    the exit code turns out to be, or by the completion;
  \<^item> a job that returns success has written, last, the phase \<^verbatim>\<open>completed\<close> with the
    progress 100.
\<close>

theorem progress_discipline:
  "sorted (map (\<lambda>(p, s). download_progress s) (trace_of (perform_download w wid st)))
   \<and> (\<forall>(p, s) \<in> set (trace_of (perform_download w wid st)).
         0 \<le> download_progress s \<and> download_progress s \<le> 100
         \<and> (p = Polled True \<longrightarrow> download_progress s \<le> 99))
   \<and> below_100_until_exit (trace_of (perform_download w wid st))
   \<and> (\<forall>res. outcome (perform_download w wid st) = Inr res \<longrightarrow> success res \<longrightarrow>
         ends_completed (trace_of (perform_download w wid st)))"
proof -
  note s = perform_download_steady [of w wid st]
  have "sorted (map (\<lambda>(p, s). download_progress s) (trace_of (perform_download w wid st)))"
    using steady_sorted [OF s] by simp
  moreover have "\<forall>(p, s) \<in> set (trace_of (perform_download w wid st)).
         0 \<le> download_progress s \<and> download_progress s \<le> 100
         \<and> (p = Polled True \<longrightarrow> download_progress s \<le> 99)"
    using steady_bounds [OF s] by blast
  moreover note steady_below [OF s]
  moreover have "\<forall>res. outcome (perform_download w wid st) = Inr res \<longrightarrow> success res \<longrightarrow>
         ends_completed (trace_of (perform_download w wid st))"
    using perform_download_completed by blast
  ultimately show ?thesis by blast
qed

theorem progress_discipline_witness:
  "map (\<lambda>(p, s). (p, download_progress s))
     (trace_of (perform_download sample_world ''999'' (initial_app_state\<lparr>download_progress := 100\<rparr>)))
     = [(Preparing, 0), (Downloading, 0), (Polled True, 50), (Polled False, 75),
        (Finalizing, 75), (Installing, 75), (Completed, 100)]
   \<and> outcome (perform_download sample_world ''999'' (initial_app_state\<lparr>download_progress := 100\<rparr>))
       = Inr \<lparr>success = True, message = ''Download completed''\<rparr>
   \<and> sorted (map (\<lambda>(p, s). download_progress s)
       (trace_of (perform_download sample_world ''999'' (initial_app_state\<lparr>download_progress := 100\<rparr>))))
   \<and> below_100_until_exit
       (trace_of (perform_download sample_world ''999'' (initial_app_state\<lparr>download_progress := 100\<rparr>)))
   \<and> ends_completed
       (trace_of (perform_download sample_world ''999'' (initial_app_state\<lparr>download_progress := 100\<rparr>)))"
proof -
  have t: "map (\<lambda>(p, s). (p, download_progress s))
     (trace_of (perform_download sample_world ''999'' (initial_app_state\<lparr>download_progress := 100\<rparr>)))
     = [(Preparing, 0), (Downloading, 0), (Polled True, 50), (Polled False, 75),
        (Finalizing, 75), (Installing, 75), (Completed, 100)]"
    by code_simp
  have r: "outcome (perform_download sample_world ''999'' (initial_app_state\<lparr>download_progress := 100\<rparr>))
       = Inr \<lparr>success = True, message = ''Download completed''\<rparr>"
    by code_simp
  have "success \<lparr>success = True, message = ''Download completed''\<rparr>" by simp
  with t r progress_discipline [of sample_world "''999''" "initial_app_state\<lparr>download_progress := 100\<rparr>"]
  show ?thesis by blast
qed

section \<open>The samples a polling round averages\<close>

lemma push_sample_window:
  assumes "ys = drop (length hist - 60) hist"
  shows "push_sample ys t = drop (length (hist @ [t]) - 60) (hist @ [t])"
proof (cases "length hist < 60")
  case True
  with assms show ?thesis by (simp add: push_sample_def Let_def)
next
  case False
  then have l: "length ys = 60" using assms by simp
  have "tl (ys @ [t]) = drop (Suc 0) (ys @ [t])" by (cases "ys @ [t]") simp_all
  also have "\<dots> = drop (Suc 0) (drop (length hist - 60) (hist @ [t]))"
    using assms False by simp
  also have "\<dots> = drop (length (hist @ [t]) - 60) (hist @ [t])"
  proof -
    have "Suc (length hist - 60) = length hist - 59" using False by simp
    then show ?thesis by simp
  qed
  finally show ?thesis using l by (simp add: push_sample_def Let_def)
qed

lemma average_bytes_window:
  assumes "ys = drop (length hist - 60) hist"
  shows "average_bytes ys = average_bytes hist"
proof (cases "length hist \<le> 60")
  case True
  with assms show ?thesis by simp
next
  case False
  then have "length hist - 60 + 55 = length hist - 5" by simp
  with False assms show ?thesis
    by (simp add: average_bytes_def last5_def add.commute)
qed

lemma poll_loop_nth:
  assumes "poll_loop fsb bd bc ys st ts = (e, tr)"
    and "ys = drop (length hist - 60) hist"
    and "k < length tr" and "fst (tr ! k) = Polled b"
  shows "k < length ts \<and> b = alive_at_clamp (ts ! k) \<and>
     (\<exists>raw. raw_progress (average_bytes (hist @ map (total_bytes_of bd bc) (take (Suc k) ts))) fsb = Inr raw
        \<and> download_progress (snd (tr ! k))
            = clamp_progress raw (download_progress (if k = 0 then st else snd (tr ! (k - 1)))) b)"
  using assms
proof (induction ts arbitrary: ys st hist k e tr)
  case Nil
  then show ?case by simp
next
  case (Cons t ts)
  let ?ys' = "push_sample ys (total_bytes_of bd bc t)"
  let ?hist' = "hist @ [total_bytes_of bd bc t]"
  have w: "?ys' = drop (length ?hist' - 60) ?hist'"
    using push_sample_window [OF Cons.prems(2)] .
  have a: "average_bytes ?ys' = average_bytes ?hist'"
    using average_bytes_window [OF w] .
  show ?case
  proof (cases "stop_seen t \<or> probe_raises t \<noteq> None \<or> (\<exists>x. raw_progress (average_bytes ?ys') fsb = Inl x)")
    case True
    with Cons.prems(1,3,4) show ?thesis
      by (auto simp: Let_def split: if_splits option.splits sum.splits)
  next
    case False
    then obtain progress where r: "raw_progress (average_bytes ?ys') fsb = Inr progress"
      by (cases "raw_progress (average_bytes ?ys') fsb") auto
    define st' where "st' = st\<lparr>download_progress :=
                                      clamp_progress progress (download_progress st) (alive_at_clamp t),
                                    download_speed := speed_text t,
                                    status_message := ''Downloading from Steam Workshop...''\<rparr>"
    have p: "download_progress st' = clamp_progress progress (download_progress st) (alive_at_clamp t)"
      by (simp add: st'_def)
    show ?thesis
    proof (cases "alive_at_clamp t")
      case dead: False
      with False r Cons.prems(1) have "tr = [(Polled False, st')]"
        by (auto simp: Let_def st'_def)
      with Cons.prems(3,4) dead r a p show ?thesis by auto
    next
      case alive: True
      obtain e' tr' where l: "poll_loop fsb bd bc ?ys' st' ts = (e', tr')"
        by (cases "poll_loop fsb bd bc ?ys' st' ts")
      with False r alive Cons.prems(1) have tr: "tr = (Polled True, st') # tr'"
        by (auto simp: Let_def st'_def)
      show ?thesis
      proof (cases k)
        case 0
        with tr Cons.prems(4) alive r a p show ?thesis by auto
      next
        case (Suc j)
        with tr Cons.prems(3,4) have j: "j < length tr'" "fst (tr' ! j) = Polled b" by simp_all
        from Cons.IH [OF l w j] obtain raw
          where i: "j < length ts" "b = alive_at_clamp (ts ! j)"
            "raw_progress (average_bytes (?hist' @ map (total_bytes_of bd bc) (take (Suc j) ts))) fsb
               = Inr raw"
            "download_progress (snd (tr' ! j))
               = clamp_progress raw (download_progress (if j = 0 then st' else snd (tr' ! (j - 1)))) b"
          by blast
        have "k < length (t # ts)" using i(1) Suc by simp
        moreover have "b = alive_at_clamp ((t # ts) ! k)" using i(2) Suc by simp
        moreover have "raw_progress
            (average_bytes (hist @ map (total_bytes_of bd bc) (take (Suc k) (t # ts)))) fsb = Inr raw"
          using i(3) Suc by simp
        moreover have "download_progress (snd (tr ! k))
            = clamp_progress raw (download_progress (if k = 0 then st else snd (tr ! (k - 1)))) b"
          using i(4) tr Suc by (cases j) simp_all
        ultimately show ?thesis by blast
      qed
    qed
  qed
qed

lemma clamp_progress_keeps:
  "0 \<le> c \<Longrightarrow> c \<le> 99 \<Longrightarrow> clamp_progress 0 c alive = c"
  by (simp add: clamp_progress_def Let_def)

lemma poll_loop_unknown_size:
  assumes "poll_loop 0 bd bc ys st ts = (e, tr)"
    and "0 \<le> download_progress st" and "download_progress st \<le> 99"
    and "(p, s) \<in> set tr"
  shows "download_progress s = download_progress st"
  using assms
proof (induction ts arbitrary: ys st e tr)
  case Nil
  then show ?case by simp
next
  case (Cons t ts)
  show ?case
  proof (cases "stop_seen t \<or> probe_raises t \<noteq> None")
    case True
    with Cons.prems(1,4) show ?thesis
      by (auto simp: Let_def split: if_splits option.splits)
  next
    case False
    let ?ys' = "push_sample ys (total_bytes_of bd bc t)"
    define st' where "st' = st\<lparr>download_progress := download_progress st,
                                    download_speed := speed_text t,
                                    status_message := ''Downloading from Steam Workshop...''\<rparr>"
    have c: "clamp_progress 0 (download_progress st) (alive_at_clamp t) = download_progress st"
      using clamp_progress_keeps [OF Cons.prems(2,3)] .
    have p: "download_progress st' = download_progress st" by (simp add: st'_def)
    show ?thesis
    proof (cases "alive_at_clamp t")
      case dead: False
      with False c Cons.prems(1) have "tr = [(Polled False, st')]"
        by (auto simp: Let_def st'_def raw_progress_def)
      with Cons.prems(4) p show ?thesis by auto
    next
      case alive: True
      obtain e' tr' where l: "poll_loop 0 bd bc ?ys' st' ts = (e', tr')"
        by (cases "poll_loop 0 bd bc ?ys' st' ts")
      with False c alive Cons.prems(1) have tr: "tr = (Polled True, st') # tr'"
        by (auto simp: Let_def st'_def raw_progress_def)
      from Cons.IH [OF l] Cons.prems(2,3) p
      have "(p, s) \<in> set tr' \<Longrightarrow> download_progress s = download_progress st" by simp
      with tr Cons.prems(4) p show ?thesis by auto
    qed
  qed
qed


lemma raw_progress_unknown: "raw_progress a 0 = Inr 0"
  by (simp add: raw_progress_def)

lemma raw_progress_known:
  assumes "fsb \<noteq> 0" and "raw_progress a fsb = Inr raw"
  shows "\<exists>q p. py_truediv a fsb = Inr q \<and> int_of_float (float_mul_int q 100) = Inr p
           \<and> raw = min p 100"
  using assms by (auto simp: raw_progress_def split: sum.splits)

section \<open>The percentage of a polling round\<close>

text \<open>
  Claim C4 says that with a known expected size the percentage of a round, before
  clamping, is \<^verbatim>\<open>min(round(average of the last 5 size samples / expected total size * 100), 100)\<close>.
  \<^term>\<open>spec_percentage\<close> is that formula, in exact arithmetic. The code differs from it in
  three ways, one for each pair of lines below:
  \<^item> \<^verbatim>\<open>int(...)\<close> truncates: one sample of 3 bytes out of 400 expected is 0.75 percent,
    which the formula rounds to 1 and the code reports as 0 (first the loop, then the
    expression alone);
  \<^item> the quotient and the product are double-precision operations: 29 bytes out of 100
    give 28.999999999999996 and so 28, where the exact value is 29;
  \<^item> the average is taken by floor division: the samples 1 and 2 out of 2 expected give
    the average 1 and 50 percent, where the formula gives 75.
\<close>

theorem percentage_is_truncated:
  "map (\<lambda>(p, s). (p, download_progress s))
     (snd (poll_loop 400 0 0 [] initial_app_state [sample_tick 3 True])) = [(Polled True, 0)]
   \<and> raw_progress (average_bytes (push_sample [] 3)) 400 = Inr 0
   \<and> spec_percentage (push_sample [] 3) 400 = 1
   \<and> raw_progress (average_bytes (push_sample [] 29)) 100 = Inr 28
   \<and> spec_percentage (push_sample [] 29) 100 = 29
   \<and> raw_progress (average_bytes (push_sample (push_sample [] 1) 2)) 2 = Inr 50
   \<and> spec_percentage (push_sample (push_sample [] 1) 2) 2 = 75"
  by code_simp

text \<open>
  Claim C4 as amended. With the expected size unknown (0) the percentage before clamping
  is 0 and nothing is divided. For the loop as \<^verbatim>\<open>_perform_download\<close> enters it (no sample
  yet), let the \<open>k\<close>-th write of the loop be that of a polling round (\<^term>\<open>Polled b\<close>). Then
  it is the write of the \<open>k\<close>-th round, \<open>b\<close> tells whether that round found the process
  running at line 604, and the progress written is \<^term>\<open>clamp_progress\<close> of the value
  written before and of a percentage \<open>raw\<close> such that:
  \<^item> \<open>raw\<close> is computed from the sizes measured in the rounds up to this one, of which only
    the last five count: dropping the oldest of more than 60 samples changes nothing;
  \<^item> with a known expected size, \<open>raw\<close> is \<^verbatim>\<open>min(int(A / expected * 100), 100)\<close>, where \<open>A\<close>
    is the sum of the last five samples (or of all, when fewer) floor-divided by their
    number, \<^verbatim>\<open>/\<close> and \<^verbatim>\<open>*\<close> are the double-precision operations and \<^verbatim>\<open>int\<close> truncates
    toward zero;
  \<^item> with the expected size unknown, \<open>raw\<close> is 0, and when the loop is entered with a
    progress between 0 and 99 (\<^verbatim>\<open>_perform_download\<close> enters it at 0) the progress
    written is the one the loop was entered with.
\<close>

theorem polled_percentage:
  "raw_progress a 0 = Inr 0
   \<and> (poll_loop fsb bd bc [] st ts = (e, tr) \<and> k < length tr \<and> fst (tr ! k) = Polled b \<longrightarrow>
        k < length ts \<and> b = alive_at_clamp (ts ! k)
        \<and> (\<exists>raw. raw_progress (average_bytes (map (total_bytes_of bd bc) (take (Suc k) ts))) fsb
                    = Inr raw
              \<and> download_progress (snd (tr ! k))
                  = clamp_progress raw (download_progress (if k = 0 then st else snd (tr ! (k - 1)))) b
              \<and> (fsb = 0 \<longrightarrow> raw = 0)
              \<and> (fsb \<noteq> 0 \<longrightarrow>
                   (\<exists>q p. py_truediv
                            (sum_list (last5 (map (total_bytes_of bd bc) (take (Suc k) ts)))
                               div int (min (Suc k) 5)) fsb = Inr q
                          \<and> int_of_float (float_mul_int q 100) = Inr p \<and> raw = min p 100)))
        \<and> (fsb = 0 \<and> 0 \<le> download_progress st \<and> download_progress st \<le> 99 \<longrightarrow>
             download_progress (snd (tr ! k)) = download_progress st))"
proof (intro conjI impI)
  show "raw_progress a 0 = Inr 0" by (rule raw_progress_unknown)
next
  assume h: "poll_loop fsb bd bc [] st ts = (e, tr) \<and> k < length tr \<and> fst (tr ! k) = Polled b"
  then have l: "poll_loop fsb bd bc [] st ts = (e, tr)" and k: "k < length tr"
    and b: "fst (tr ! k) = Polled b" by simp_all
  let ?xs = "map (total_bytes_of bd bc) (take (Suc k) ts)"
  from poll_loop_nth [OF l _ k b, of "[]"] obtain raw
    where n: "k < length ts" "b = alive_at_clamp (ts ! k)"
      and r: "raw_progress (average_bytes ?xs) fsb = Inr raw"
      and c: "download_progress (snd (tr ! k))
                = clamp_progress raw (download_progress (if k = 0 then st else snd (tr ! (k - 1)))) b"
    by auto
  from n(1) have len: "length ?xs = Suc k" by simp
  show "k < length ts" by (rule n(1))
  show "b = alive_at_clamp (ts ! k)" by (rule n(2))
  have z: "fsb = 0 \<longrightarrow> raw = 0"
    using r by (auto simp: raw_progress_unknown)
  have f: "fsb \<noteq> 0 \<longrightarrow>
       (\<exists>q p. py_truediv (sum_list (last5 ?xs) div int (min (Suc k) 5)) fsb = Inr q
              \<and> int_of_float (float_mul_int q 100) = Inr p \<and> raw = min p 100)"
  proof
    assume "fsb \<noteq> 0"
    from raw_progress_known [OF this r] show "\<exists>q p.
        py_truediv (sum_list (last5 ?xs) div int (min (Suc k) 5)) fsb = Inr q
        \<and> int_of_float (float_mul_int q 100) = Inr p \<and> raw = min p 100"
      unfolding average_bytes_def len .
  qed
  from r c z f show "\<exists>raw. raw_progress (average_bytes ?xs) fsb = Inr raw
      \<and> download_progress (snd (tr ! k))
          = clamp_progress raw (download_progress (if k = 0 then st else snd (tr ! (k - 1)))) b
      \<and> (fsb = 0 \<longrightarrow> raw = 0)
      \<and> (fsb \<noteq> 0 \<longrightarrow>
           (\<exists>q p. py_truediv (sum_list (last5 ?xs) div int (min (Suc k) 5)) fsb = Inr q
                  \<and> int_of_float (float_mul_int q 100) = Inr p \<and> raw = min p 100))"
    by blast
  show "download_progress (snd (tr ! k)) = download_progress st"
    if u: "fsb = 0 \<and> 0 \<le> download_progress st \<and> download_progress st \<le> 99"
  proof -
    from k have "tr ! k \<in> set tr" by simp
    then have "(fst (tr ! k), snd (tr ! k)) \<in> set tr" by simp
    with poll_loop_unknown_size [of bd bc "[]" st ts e tr] l u show ?thesis by blast
  qed
qed

theorem polled_percentage_witness:
  "map (\<lambda>(p, s). (p, download_progress s))
     (snd (poll_loop 100 0 0 [] initial_app_state [sample_tick 50 True, sample_tick 100 False]))
     = [(Polled True, 50), (Polled False, 75)]
   \<and> raw_progress (average_bytes [50, 100]) 100 = Inr 75
   \<and> download_progress
       (snd (snd (poll_loop 100 0 0 [] initial_app_state [sample_tick 50 True, sample_tick 100 False]) ! 1))
       = clamp_progress 75 50 False
   \<and> map (\<lambda>(p, s). (p, download_progress s))
       (snd (poll_loop 0 0 0 [] (initial_app_state\<lparr>download_progress := 7\<rparr>)
               [sample_tick 50 True, sample_tick 100 False]))
       = [(Polled True, 7), (Polled False, 7)]
   \<and> raw_progress 150 0 = Inr 0"
proof -
  let ?ts = "[sample_tick 50 True, sample_tick 100 False]"
  let ?W = "poll_loop 100 0 0 [] initial_app_state ?ts"
  let ?st = "initial_app_state\<lparr>download_progress := 7\<rparr>"
  let ?Z = "poll_loop 0 0 0 [] ?st ?ts"
  have t: "map (\<lambda>(p, s). (p, download_progress s)) (snd ?W) = [(Polled True, 50), (Polled False, 75)]"
    by code_simp
  have tz: "map (\<lambda>(p, s). (p, download_progress s)) (snd ?Z) = [(Polled True, 7), (Polled False, 7)]"
    by code_simp
  have h: "?W = (fst ?W, snd ?W) \<and> 1 < length (snd ?W) \<and> fst (snd ?W ! 1) = Polled False"
    by code_simp
  have x: "map (total_bytes_of 0 0) (take (Suc 1) ?ts) = [50, 100]" by code_simp
  have v: "raw_progress (average_bytes [50, 100]) 100 = Inr 75" by code_simp
  have p: "download_progress (if (1::nat) = 0 then initial_app_state else snd (snd ?W ! (1 - 1))) = 50"
    by code_simp
  from polled_percentage [of 150 100 0 0 initial_app_state ?ts "fst ?W" "snd ?W" 1 False] h
  obtain raw where "raw_progress (average_bytes (map (total_bytes_of 0 0) (take (Suc 1) ?ts))) 100 = Inr raw"
    and c: "download_progress (snd (snd ?W ! 1))
              = clamp_progress raw
                  (download_progress (if (1::nat) = 0 then initial_app_state else snd (snd ?W ! (1 - 1)))) False"
    and "raw_progress 150 0 = Inr 0"
    by blast
  with x v have "raw = 75" by simp
  with c p have "download_progress (snd (snd ?W ! 1)) = clamp_progress 75 50 False" by simp
  moreover have "raw_progress 150 0 = Inr 0"
    using polled_percentage [of 150 100 0 0 initial_app_state ?ts "fst ?W" "snd ?W" 1 False] by blast
  ultimately show ?thesis using t tz v by blast
qed

end
